theory Spec2Isabelle
  imports Complex_Main "HOL-Library.Log_Nat"
begin

section \<open>Request data (\<^verbatim>\<open>ProteinRequest\<close>)\<close>

text \<open>
  The \<^verbatim>\<open>Literal[...]\<close> fields of \<^verbatim>\<open>ProteinRequest\<close> are enumerations: a validated
  request can hold no other value. A Python \<^verbatim>\<open>float\<close> is an IEEE 754 binary64 number; a
  finite one is modelled by the rational number it denotes (type \<^typ>\<open>rat\<close>), and the
  arithmetic on them is defined in the next section.
\<close>

datatype weight_unit = Kg | Lb

datatype activity = Low | Moderate | High

datatype goal = FatLoss | Maintenance | MuscleGain

datatype sex = Male | Female | Other

record ProteinRequest =
  weight :: rat
  unit :: weight_unit
  activity :: activity
  goal :: goal
  age :: "int option"
  sex :: "sex option"

section \<open>Python numbers\<close>

subsection \<open>Exceptions\<close>

text \<open>
  The two exceptions the arithmetic of \<^verbatim>\<open>calculate_protein\<close> can raise. A function that
  can raise returns \<open>py_error + 'a\<close>, with \<open>Inl\<close> for the exception.
\<close>

datatype py_error = ZeroDivisionError | OverflowError

definition err_bind :: "py_error + 'a \<Rightarrow> ('a \<Rightarrow> py_error + 'b) \<Rightarrow> py_error + 'b" where
  "err_bind m k = (case m of Inl e \<Rightarrow> Inl e | Inr v \<Rightarrow> k v)"

subsection \<open>Rounding to binary64\<close>

text \<open>
  \<open>rhe\<close> rounds a rational to the nearest integer, a tie going to the even neighbour.
  It is what Python's one-argument \<^verbatim>\<open>round\<close> does on a float, and what IEEE 754 does
  with the significand of a result.
\<close>

definition rhe :: "rat \<Rightarrow> int" where
  "rhe x = (let f = \<lfloor>x\<rfloor>; r = x - of_int f
            in if r < 1 / 2 then f else if 1 / 2 < r then f + 1
               else if even f then f else f + 1)"

text \<open>
  \<open>ilog2 x\<close> is the binary exponent of a positive rational, \<open>\<lfloor>log\<^sub>2 x\<rfloor>\<close>, computed from the
  bit lengths of numerator and denominator.
\<close>

definition ilog2 :: "rat \<Rightarrow> int" where
  "ilog2 x = (case quotient_of x of (p, d) \<Rightarrow>
                let e0 = bitlen p - bitlen d
                in if 2 powi e0 \<le> x then e0 else e0 - 1)"

text \<open>
  The exponent of the unit in the last place of the binary64 number nearest to \<open>x\<close>:
  53 significant bits, and no exponent below that of the subnormal numbers, \<open>2\<^sup>-\<^sup>1\<^sup>0\<^sup>7\<^sup>4\<close>.
\<close>

definition ulp_exp :: "rat \<Rightarrow> int" where
  "ulp_exp x = max (ilog2 \<bar>x\<bar> - 52) (- 1074)"

text \<open>
  \<open>fl x\<close> is \<open>x\<close> rounded to the nearest number with a 53-bit significand, ties to even
  (the IEEE 754 default rounding, which CPython uses), before the overflow check.
\<close>

definition fl :: "rat \<Rightarrow> rat" where
  "fl x = (if x = 0 then 0 else of_int (rhe (x / 2 powi ulp_exp x)) * 2 powi ulp_exp x)"

text \<open>
  The finite binary64 numbers: those that rounding leaves unchanged and whose magnitude is
  below \<open>2\<^sup>1\<^sup>0\<^sup>2\<^sup>4\<close>, that is, whose binary exponent is below 1024.
\<close>

definition in_range :: "rat \<Rightarrow> bool" where
  "in_range r \<longleftrightarrow> r = 0 \<or> ilog2 \<bar>r\<bar> < 1024"

definition is_double :: "rat \<Rightarrow> bool" where
  "is_double x \<longleftrightarrow> fl x = x \<and> in_range x"

text \<open>
  A result whose rounded magnitude reaches \<open>2\<^sup>1\<^sup>0\<^sup>2\<^sup>4\<close> overflows. In Python the operation
  then returns \<^verbatim>\<open>inf\<close>; in \<^verbatim>\<open>calculate_protein\<close> and \<^verbatim>\<open>_make_plan\<close> every float that is
  computed flows, through multiplications and divisions by positive finite numbers, into a
  call of \<^verbatim>\<open>round\<close>, which raises \<^verbatim>\<open>OverflowError\<close> on \<^verbatim>\<open>inf\<close>. The model raises that
  exception at the overflow itself. The conversion of a too large \<^verbatim>\<open>int\<close> to \<^verbatim>\<open>float\<close>
  raises \<^verbatim>\<open>OverflowError\<close> in Python as well.
\<close>

definition to_double :: "rat \<Rightarrow> py_error + rat" where
  "to_double x = (let r = fl x in if in_range r then Inr r else Inl OverflowError)"

text \<open>
  A decimal literal of the source denotes the nearest binary64 number. \<open>float_lit m d\<close> is
  the literal with the digits \<open>m\<close>, the last \<open>d\<close> of them after the point: \<^verbatim>\<open>1.2\<close> is
  \<open>float_lit 12 1\<close> and \<^verbatim>\<open>0.45359237\<close> is \<open>float_lit 45359237 8\<close>. The literals with an
  integer value (\<^verbatim>\<open>2.0\<close>, \<^verbatim>\<open>4.0\<close>, \<^verbatim>\<open>5.0\<close>, \<^verbatim>\<open>9.0\<close>, \<^verbatim>\<open>100.0\<close>) are exact and are
  written as numerals.
\<close>

definition float_lit :: "int \<Rightarrow> int \<Rightarrow> rat" where
  "float_lit m d = fl (of_int m / 10 powi d)"

text \<open>The float operations: the exact result, rounded.\<close>

definition fadd :: "rat \<Rightarrow> rat \<Rightarrow> py_error + rat" where
  "fadd x y = to_double (x + y)"

definition fmul :: "rat \<Rightarrow> rat \<Rightarrow> py_error + rat" where
  "fmul x y = to_double (x * y)"

definition fdiv :: "rat \<Rightarrow> rat \<Rightarrow> py_error + rat" where
  "fdiv x y = (if y = 0 then Inl ZeroDivisionError else to_double (x / y))"

text \<open>An \<^verbatim>\<open>int\<close> operand of a float operation is converted to \<^verbatim>\<open>float\<close> first.\<close>

definition float_of_int :: "int \<Rightarrow> py_error + rat" where
  "float_of_int n = to_double (of_int n)"

text \<open>
  \<^verbatim>\<open>round(x)\<close> of a finite float is the nearest \<^verbatim>\<open>int\<close>, ties to even. \<^verbatim>\<open>round(x, n)\<close>
  rounds the exact value of \<open>x\<close> to \<open>n\<close> decimals, ties to even, and returns the binary64
  number nearest to that decimal.
\<close>

definition py_round :: "rat \<Rightarrow> int" where
  "py_round x = rhe x"

definition py_round_ndigits :: "rat \<Rightarrow> nat \<Rightarrow> py_error + rat" where
  "py_round_ndigits x n = to_double (of_int (rhe (x * 10 ^ n)) / 10 ^ n)"

subsection \<open>\<^verbatim>\<open>repr\<close> of a float, as an f-string without a format embeds it\<close>

text \<open>
  \<^verbatim>\<open>f"{x}"\<close> of a float \<open>x\<close> is \<^verbatim>\<open>repr(x)\<close>: the shortest decimal digit string that
  reads back as \<open>x\<close> (the nearest to \<open>x\<close> among the shortest), printed in positional
  notation with at least one digit after the point when its decimal exponent is between
  \<open>-4\<close> and 16, and in exponent notation otherwise.

  \<open>decimal_exp x\<close> is \<open>\<lfloor>log\<^sub>1\<^sub>0 x\<rfloor>\<close> for a positive binary64 number, found by repeated division
  or multiplication by ten (400 steps are more than any binary64 number needs).
\<close>

fun dec_exp_ge1 :: "nat \<Rightarrow> rat \<Rightarrow> int" where
  "dec_exp_ge1 0 x = 0"
| "dec_exp_ge1 (Suc n) x = (if 10 \<le> x then 1 + dec_exp_ge1 n (x / 10) else 0)"

fun dec_exp_lt1 :: "nat \<Rightarrow> rat \<Rightarrow> int" where
  "dec_exp_lt1 0 x = 0"
| "dec_exp_lt1 (Suc n) x = (if x < 1 then 1 + dec_exp_lt1 n (x * 10) else 0)"

definition decimal_exp :: "rat \<Rightarrow> int" where
  "decimal_exp x = (if 1 \<le> x then dec_exp_ge1 400 x else - dec_exp_lt1 400 x)"

text \<open>
  The decimal \<open>m \<times> 10\<^sup>e\<close> with \<open>n\<close> significant digits that reads back as \<open>x\<close>, if there is
  one: it is one of the two \<open>n\<close>-digit neighbours of \<open>x\<close>, and the nearer one when both do.
\<close>

definition shortest_candidate :: "rat \<Rightarrow> nat \<Rightarrow> (int \<times> int) option" where
  "shortest_candidate x n =
     (let e = decimal_exp x - (int n - 1);
          s = x / 10 powi e;
          lo = \<lfloor>s\<rfloor>;
          hi = lo + 1;
          lo_ok = (fl (of_int lo * 10 powi e) = x);
          hi_ok = (fl (of_int hi * 10 powi e) = x);
          lo_near = (s - of_int lo < of_int hi - s \<or> (s - of_int lo = of_int hi - s \<and> even lo))
      in if lo_ok \<and> (\<not> hi_ok \<or> lo_near) then Some (lo, e)
         else if hi_ok then Some (hi, e)
         else None)"

fun shortest_digits :: "rat \<Rightarrow> nat list \<Rightarrow> int \<times> int" where
  "shortest_digits x [] = (0, 0)"
| "shortest_digits x (n # ns) =
     (case shortest_candidate x n of Some me \<Rightarrow> me | None \<Rightarrow> shortest_digits x ns)"

function digits_of :: "nat \<Rightarrow> string" where
  "digits_of n =
     (if n < 10 then [''0123456789'' ! n]
      else digits_of (n div 10) @ [''0123456789'' ! (n mod 10)])"
  by pat_completeness auto
termination
  by (relation "measure id") auto

fun strip_zeros :: "string \<Rightarrow> int \<Rightarrow> string \<times> int" where
  "strip_zeros ds e =
     (if 1 < length ds \<and> last ds = CHR ''0'' then strip_zeros (butlast ds) (e + 1)
      else (ds, e))"

definition repr_pos :: "rat \<Rightarrow> string" where
  "repr_pos x =
     (case shortest_digits x [1..<18] of (m, e) \<Rightarrow>
      case strip_zeros (digits_of (nat m)) e of (ds, e') \<Rightarrow>
        let decpt = int (length ds) + e'
        in if decpt \<le> - 4 \<or> 16 < decpt
           then hd ds # (if 1 < length ds then ''.'' @ tl ds else [])
                  @ ''e'' @ (if decpt - 1 < 0 then ''-'' else ''+'')
                  @ (if \<bar>decpt - 1\<bar> < 10 then ''0'' else [])
                  @ digits_of (nat \<bar>decpt - 1\<bar>)
           else if decpt \<le> 0
           then ''0.'' @ replicate (nat (- decpt)) CHR ''0'' @ ds
           else if int (length ds) \<le> decpt
           then ds @ replicate (nat decpt - length ds) CHR ''0'' @ ''.0''
           else take (nat decpt) ds @ ''.'' @ drop (nat decpt) ds)"

definition float_repr :: "rat \<Rightarrow> string" where
  "float_repr x =
     (if x = 0 then ''0.0'' else if x < 0 then ''-'' @ repr_pos (- x) else repr_pos x)"

section \<open>Response data\<close>

text \<open>
  \<^verbatim>\<open>split_percent\<close> is a \<^verbatim>\<open>dict\<close> with the keys \<^verbatim>\<open>"protein"\<close>, \<^verbatim>\<open>"carbs"\<close> and
  \<^verbatim>\<open>"fats"\<close>, kept as the list of its items in insertion order.
\<close>

record MacroSplit =
  protein_g :: int
  carbs_g :: int
  fats_g :: int
  split_percent :: "(string \<times> int) list"
  calories :: int

record MealSuggestion =
  name :: string
  tagline :: string
  macros :: MacroSplit
  sample_meals :: "string list"

record ProteinResponse =
  weight_kg :: rat
  grams_per_kg_range :: "rat \<times> rat"
  daily_grams_min :: int
  daily_grams_max :: int
  daily_grams_target :: int
  rationale :: string
  suggestions :: "MealSuggestion list"

section \<open>\<^verbatim>\<open>_round5\<close> and \<^verbatim>\<open>_make_plan\<close>\<close>

text \<open>
  \<^verbatim>\<open>int(round(x / 5.0) * 5)\<close>: \<^verbatim>\<open>round\<close> with one argument returns an \<^verbatim>\<open>int\<close>, which is
  multiplied by 5 as an \<^verbatim>\<open>int\<close>.
\<close>

definition round5 :: "rat \<Rightarrow> py_error + int" where
  "round5 x = err_bind (fdiv x 5) (\<lambda>q. Inr (py_round q * 5))"

definition base_meals :: "string \<rightharpoonup> string list" where
  "base_meals = map_of
     [(''Lifting Beast'',
        [''Breakfast: Greek yogurt parfait + oats + whey'',
         ''Lunch: Steak bowl with rice, beans, salsa'',
         ''Snack: Cottage cheese + fruit + almonds'',
         ''Dinner: Chicken thighs, potatoes, roasted veg'']),
      (''Mat Dominator'',
        [''Breakfast: Egg white omelet + spinach + toast'',
         ''Lunch: Turkey rice bowl + kimchi'',
         ''Snack: Beef jerky + banana'',
         ''Dinner: Salmon, quinoa, mixed greens'']),
      (''Track Rocket'',
        [''Breakfast: Protein pancakes + berries'',
         ''Lunch: Teriyaki chicken + jasmine rice'',
         ''Snack: Low-fat chocolate milk + pretzels'',
         ''Dinner: Lean beef pasta + tomato sauce'']),
      (''Grand Tour Engine'',
        [''Breakfast: Oats + honey + whey + banana'',
         ''Ride Fuel: Rice cakes + isotonic drink'',
         ''Lunch: Tuna baguette + fruit'',
         ''Dinner: Chicken risotto + olive oil drizzle''])]"

definition default_meals :: "string list" where
  "default_meals =
     [''Breakfast: Eggs + oats + fruit'',
      ''Lunch: Chicken rice bowl'',
      ''Snack: Yogurt + nuts'',
      ''Dinner: Fish, potatoes, vegetables'']"

text \<open>
  \<^verbatim>\<open>_make_plan(name, tagline, pct, protein_g)\<close>. \<^verbatim>\<open>protein_g\<close> and the three percentages are
  \<^verbatim>\<open>int\<close>s; each float operation on one converts it first. The division by
  \<^verbatim>\<open>p_pct / 100.0\<close> raises \<^verbatim>\<open>ZeroDivisionError\<close> when that quotient is zero.
\<close>

definition make_plan ::
  "string \<Rightarrow> string \<Rightarrow> int \<times> int \<times> int \<Rightarrow> int \<Rightarrow> py_error + MealSuggestion" where
  "make_plan nm tag pct protein =
     (case pct of (p_pct, c_pct, f_pct) \<Rightarrow>
        err_bind (float_of_int protein) (\<lambda>protein_f.
        err_bind (fmul protein_f 4) (\<lambda>protein_kcal.
        err_bind (float_of_int p_pct) (\<lambda>p_f.
        err_bind (fdiv p_f 100) (\<lambda>p_frac.
        err_bind (fdiv protein_kcal p_frac) (\<lambda>total_kcal.
        err_bind (float_of_int c_pct) (\<lambda>c_f.
        err_bind (fdiv c_f 100) (\<lambda>c_frac.
        err_bind (fmul total_kcal c_frac) (\<lambda>c_kcal.
        err_bind (fdiv c_kcal 4) (\<lambda>carbs.
        err_bind (float_of_int f_pct) (\<lambda>f_f.
        err_bind (fdiv f_f 100) (\<lambda>f_frac.
        err_bind (fmul total_kcal f_frac) (\<lambda>f_kcal.
        err_bind (fdiv f_kcal 9) (\<lambda>fats.
        err_bind (round5 protein_f) (\<lambda>r_protein.
        err_bind (round5 carbs) (\<lambda>r_carbs.
        err_bind (round5 fats) (\<lambda>r_fats.
          Inr \<lparr>name = nm, tagline = tag,
               macros = \<lparr>protein_g = r_protein, carbs_g = r_carbs, fats_g = r_fats,
                          split_percent =
                            [(''protein'', p_pct), (''carbs'', c_pct), (''fats'', f_pct)],
                          calories = py_round total_kcal\<rparr>,
               sample_meals =
                 (case base_meals nm of None \<Rightarrow> default_meals
                  | Some meals \<Rightarrow> meals)\<rparr>)))))))))))))))))"

section \<open>\<^verbatim>\<open>calculate_protein\<close>\<close>

subsection \<open>The range in grams per kilogram (lines 136 to 153)\<close>

definition base_range :: "activity \<Rightarrow> rat \<times> rat" where
  "base_range a =
     (case a of
        Low \<Rightarrow> (float_lit 12 1, float_lit 16 1)
      | Moderate \<Rightarrow> (float_lit 16 1, 2)
      | High \<Rightarrow> (float_lit 18 1, float_lit 22 1))"

definition goal_adjust :: "goal \<Rightarrow> rat \<times> rat \<Rightarrow> py_error + rat \<times> rat" where
  "goal_adjust g b =
     (case b of (base_min, base_max) \<Rightarrow>
        case g of
          FatLoss \<Rightarrow>
            err_bind (fadd base_min (float_lit 2 1)) (\<lambda>base_min'.
            err_bind (fadd base_max (float_lit 2 1)) (\<lambda>base_max'.
              Inr (base_min', base_max')))
        | MuscleGain \<Rightarrow>
            err_bind (fadd base_min (float_lit 1 1)) (\<lambda>base_min'.
            err_bind (fadd base_max (float_lit 1 1)) (\<lambda>base_max'.
              Inr (base_min', base_max')))
        | Maintenance \<Rightarrow> Inr (base_min, base_max))"

definition clamp_range :: "rat \<times> rat \<Rightarrow> py_error + rat \<times> rat" where
  "clamp_range b =
     (case b of (base_min, base_max) \<Rightarrow>
        err_bind (py_round_ndigits base_min 2) (\<lambda>r_min.
        err_bind (py_round_ndigits base_max 2) (\<lambda>r_max.
          Inr (max (float_lit 12 1) r_min, min (float_lit 27 1) r_max))))"

definition protein_range :: "activity \<Rightarrow> goal \<Rightarrow> py_error + rat \<times> rat" where
  "protein_range a g = err_bind (goal_adjust g (base_range a)) clamp_range"

subsection \<open>The daily grams (lines 155 to 157)\<close>

definition daily_grams :: "rat \<Rightarrow> rat \<Rightarrow> rat \<Rightarrow> py_error + int \<times> int \<times> int" where
  "daily_grams min_gkg max_gkg wkg =
     err_bind (fmul min_gkg wkg) (\<lambda>lo.
     err_bind (fmul max_gkg wkg) (\<lambda>hi.
     err_bind (fadd min_gkg max_gkg) (\<lambda>s.
     err_bind (fdiv s 2) (\<lambda>mid.
     err_bind (fmul mid wkg) (\<lambda>tg.
       Inr (py_round lo, py_round hi, py_round tg))))))"

subsection \<open>The rationale (lines 159 to 164)\<close>

definition rationale_text :: "rat \<Rightarrow> rat \<Rightarrow> string" where
  "rationale_text min_gkg max_gkg =
     ''Based on your activity and goal, a range of ''
     @ float_repr min_gkg @ ''-'' @ float_repr max_gkg @ '' g/kg is appropriate. ''
     @ ''Using your body weight, that translates to the amounts shown. ''
     @ ''Hitting the middle of the range is a practical daily target.''"

subsection \<open>The meal suggestions (lines 168 to 190)\<close>

text \<open>
  The archetype table: name, tagline and base split (protein, carbs, fat) in percent.
\<close>

definition archetypes :: "(string \<times> string \<times> (int \<times> int \<times> int)) list" where
  "archetypes =
     [(''Lifting Beast'', ''Build thick strength with steady carbs.'', (30, 45, 25)),
      (''Mat Dominator'', ''Mat-ready power with cutting-edge leanness.'', (35, 35, 30)),
      (''Track Rocket'', ''Explosive speed fueled by fast carbs.'', (25, 50, 25)),
      (''Grand Tour Engine'', ''Endurance-first fuel for long days in the saddle.'',
         (20, 60, 20))]"

text \<open>
  \<^verbatim>\<open>goal_adj = {"fat_loss": 5, "maintenance": 0, "muscle_gain": 0}\<close> is a dictionary;
  \<^verbatim>\<open>goal_adj.get(req.goal, 0)\<close> reads it with the default 0.
\<close>

definition goal_adj :: "goal \<rightharpoonup> int" where
  "goal_adj = [FatLoss \<mapsto> 5, Maintenance \<mapsto> 0, MuscleGain \<mapsto> 0]"

definition p_bump_of :: "goal \<Rightarrow> int" where
  "p_bump_of g = (case goal_adj g of None \<Rightarrow> 0 | Some b \<Rightarrow> b)"

text \<open>
  The body of the loop over the archetypes, up to the call of \<^verbatim>\<open>_make_plan\<close>: the split
  \<^verbatim>\<open>(adj_p, adj_c, f)\<close> that is handed to it.
\<close>

definition adjust_split :: "int \<Rightarrow> int \<times> int \<times> int \<Rightarrow> int \<times> int \<times> int" where
  "adjust_split p_bump pcf =
     (case pcf of (p, c, f) \<Rightarrow>
        let adj_p = min 45 (p + p_bump);
            reduce_from_carbs = p_bump;
            adj_c = max 30 (c - reduce_from_carbs);
            total = adj_p + adj_c + f
        in if total \<noteq> 100
           then (let diff = 100 - total in (adj_p, adj_c, max 20 (f + diff)))
           else (adj_p, adj_c, f))"

text \<open>The loop: one plan per archetype, in the order of the table.\<close>

fun suggestions_for ::
  "int \<Rightarrow> int \<Rightarrow> (string \<times> string \<times> (int \<times> int \<times> int)) list
     \<Rightarrow> py_error + MealSuggestion list" where
  "suggestions_for p_bump target [] = Inr []"
| "suggestions_for p_bump target ((nm, tag, pcf) # rest) =
     err_bind (make_plan nm tag (adjust_split p_bump pcf) target) (\<lambda>plan.
     err_bind (suggestions_for p_bump target rest) (\<lambda>plans.
       Inr (plan # plans)))"

subsection \<open>The whole function\<close>

definition weight_in_kg :: "ProteinRequest \<Rightarrow> py_error + rat" where
  "weight_in_kg req =
     (if unit req = Kg then Inr (weight req)
      else fmul (weight req) (float_lit 45359237 8))"

definition calculate_protein :: "ProteinRequest \<Rightarrow> py_error + ProteinResponse" where
  "calculate_protein req =
     err_bind (weight_in_kg req) (\<lambda>wkg.
     err_bind (protein_range (activity req) (goal req)) (\<lambda>(min_gkg, max_gkg).
     err_bind (daily_grams min_gkg max_gkg wkg) (\<lambda>(daily_min, daily_max, target).
     err_bind (suggestions_for (p_bump_of (goal req)) target archetypes) (\<lambda>plans.
     err_bind (py_round_ndigits wkg 2) (\<lambda>wkg2.
       Inr \<lparr>weight_kg = wkg2,
            grams_per_kg_range = (min_gkg, max_gkg),
            daily_grams_min = daily_min,
            daily_grams_max = daily_max,
            daily_grams_target = target,
            rationale = rationale_text min_gkg max_gkg,
            suggestions = plans\<rparr>)))))"

section \<open>Construction of a \<^verbatim>\<open>ProteinRequest\<close>\<close>

text \<open>
  The request body before validation: the weight as the float it was read as, the other
  fields as the strings and integer of the body, absent when the body leaves them out.
\<close>

record RawRequest =
  raw_weight :: rat
  raw_unit :: "string option"
  raw_activity :: "string option"
  raw_goal :: "string option"
  raw_age :: "int option"
  raw_sex :: "string option"

text \<open>A \<^verbatim>\<open>ValidationError\<close> lists the fields that failed.\<close>

datatype validation_error = ValidationError "string list"

definition parse_unit :: "string \<Rightarrow> weight_unit option" where
  "parse_unit s = (if s = ''kg'' then Some Kg else if s = ''lb'' then Some Lb else None)"

definition parse_activity :: "string \<Rightarrow> activity option" where
  "parse_activity s =
     (if s = ''low'' then Some Low else if s = ''moderate'' then Some Moderate
      else if s = ''high'' then Some High else None)"

definition parse_goal :: "string \<Rightarrow> goal option" where
  "parse_goal s =
     (if s = ''fat_loss'' then Some FatLoss else if s = ''maintenance'' then Some Maintenance
      else if s = ''muscle_gain'' then Some MuscleGain else None)"

definition parse_sex :: "string \<Rightarrow> sex option" where
  "parse_sex s =
     (if s = ''male'' then Some Male else if s = ''female'' then Some Female
      else if s = ''other'' then Some Other else None)"

text \<open>
  The checks of the field \<^verbatim>\<open>weight\<close>: the constraint \<^verbatim>\<open>gt=0\<close> of the field, then the
  validator \<^verbatim>\<open>validate_weight\<close>, which raises above 1000 and returns the value unchanged
  otherwise.
\<close>

definition validate_weight :: "rat \<Rightarrow> rat option" where
  "validate_weight v = (if 1000 < v then None else Some v)"

definition check_weight :: "rat \<Rightarrow> rat option" where
  "check_weight v = (if \<not> 0 < v then None else validate_weight v)"

definition check_age :: "int option \<Rightarrow> int option option" where
  "check_age a =
     (case a of None \<Rightarrow> Some None
      | Some n \<Rightarrow> if 10 \<le> n \<and> n \<le> 100 then Some (Some n) else None)"

text \<open>
  An absent \<^verbatim>\<open>unit\<close>, \<^verbatim>\<open>activity\<close> or \<^verbatim>\<open>goal\<close> takes the default of its field; an absent
  \<^verbatim>\<open>sex\<close> stays \<^verbatim>\<open>None\<close>.
\<close>

definition field_errors :: "RawRequest \<Rightarrow> string list" where
  "field_errors raw =
     (if check_weight (raw_weight raw) = None then [''weight''] else [])
     @ (case raw_unit raw of None \<Rightarrow> []
        | Some s \<Rightarrow> if parse_unit s = None then [''unit''] else [])
     @ (case raw_activity raw of None \<Rightarrow> []
        | Some s \<Rightarrow> if parse_activity s = None then [''activity''] else [])
     @ (case raw_goal raw of None \<Rightarrow> []
        | Some s \<Rightarrow> if parse_goal s = None then [''goal''] else [])
     @ (if check_age (raw_age raw) = None then [''age''] else [])
     @ (case raw_sex raw of None \<Rightarrow> []
        | Some s \<Rightarrow> if parse_sex s = None then [''sex''] else [])"

definition ProteinRequest_init :: "RawRequest \<Rightarrow> validation_error + ProteinRequest" where
  "ProteinRequest_init raw =
     (if field_errors raw \<noteq> [] then Inl (ValidationError (field_errors raw))
      else Inr \<lparr>weight = the (check_weight (raw_weight raw)),
                unit = (case raw_unit raw of None \<Rightarrow> Kg | Some s \<Rightarrow> the (parse_unit s)),
                activity =
                  (case raw_activity raw of None \<Rightarrow> Moderate
                   | Some s \<Rightarrow> the (parse_activity s)),
                goal =
                  (case raw_goal raw of None \<Rightarrow> Maintenance | Some s \<Rightarrow> the (parse_goal s)),
                age = raw_age raw,
                sex = (case raw_sex raw of None \<Rightarrow> None | Some s \<Rightarrow> parse_sex s)\<rparr>)"

section \<open>Notions used by the properties\<close>

text \<open>
  What the constraints of \<^verbatim>\<open>ProteinRequest\<close> guarantee of a request that was built. The
  weight of a request is a binary64 number; the properties below hold for every rational
  weight in \<open>(0, 1000]\<close>.
\<close>

definition valid_request :: "ProteinRequest \<Rightarrow> bool" where
  "valid_request req \<longleftrightarrow>
     0 < weight req \<and> weight req \<le> 1000 \<and>
     (case age req of None \<Rightarrow> True | Some n \<Rightarrow> 10 \<le> n \<and> n \<le> 100)"

text \<open>
  The raw amounts of \<^verbatim>\<open>_make_plan\<close> as float expressions, for the case that no operation
  raises: \<^verbatim>\<open>total_kcal\<close>, \<^verbatim>\<open>carbs_g\<close> and \<^verbatim>\<open>fats_g\<close> before \<^verbatim>\<open>_round5\<close>, from the
  percentages and the target.
\<close>

definition total_kcal_of :: "int \<Rightarrow> int \<Rightarrow> rat" where
  "total_kcal_of p_pct target = fl (fl (of_int target * 4) / fl (of_int p_pct / 100))"

definition raw_carbs_of :: "int \<Rightarrow> int \<Rightarrow> int \<Rightarrow> rat" where
  "raw_carbs_of p_pct c_pct target =
     fl (fl (total_kcal_of p_pct target * fl (of_int c_pct / 100)) / 4)"

definition raw_fats_of :: "int \<Rightarrow> int \<Rightarrow> int \<Rightarrow> rat" where
  "raw_fats_of p_pct f_pct target =
     fl (fl (total_kcal_of p_pct target * fl (of_int f_pct / 100)) / 9)"

text \<open>The base splits of the table, and the sum of a split.\<close>

definition base_splits :: "(int \<times> int \<times> int) list" where
  "base_splits = map (\<lambda>(nm, tag, pcf). pcf) archetypes"

definition split_sum :: "int \<times> int \<times> int \<Rightarrow> int" where
  "split_sum pcf = (case pcf of (p, c, f) \<Rightarrow> p + c + f)"

text \<open>
  When a floor binds: the carbs floor when \<^verbatim>\<open>max(30, c - bump)\<close> returns 30 (the weak
  reading, which counts the case \<^verbatim>\<open>c - bump = 30\<close>), the fat floor when the
  normalisation branch runs and \<^verbatim>\<open>max(20, f + diff)\<close> returns 20.
\<close>

definition carbs_floor_binds :: "int \<Rightarrow> int \<times> int \<times> int \<Rightarrow> bool" where
  "carbs_floor_binds p_bump pcf = (case pcf of (p, c, f) \<Rightarrow> c - p_bump \<le> 30)"

definition fat_floor_binds :: "int \<Rightarrow> int \<times> int \<times> int \<Rightarrow> bool" where
  "fat_floor_binds p_bump pcf =
     (case pcf of (p, c, f) \<Rightarrow>
        let total = min 45 (p + p_bump) + max 30 (c - p_bump) + f
        in total \<noteq> 100 \<and> f + (100 - total) \<le> 20)"

text \<open>
  The rationale as the specification words it: the same template, with the two bounds
  printed with exactly two decimals (Python's \<^verbatim>\<open>format(x, ".2f")\<close>, for a bound that is
  not negative). It is not taken from the source; the property about the rationale compares
  the source's text with it.
\<close>

definition two_decimal_text :: "rat \<Rightarrow> string" where
  "two_decimal_text x =
     (let n = nat (rhe (x * 100))
      in digits_of (n div 100) @ ''.'' @ digits_of (n mod 100 div 10) @ digits_of (n mod 10))"

definition rationale_two_decimals :: "rat \<Rightarrow> rat \<Rightarrow> string" where
  "rationale_two_decimals min_gkg max_gkg =
     ''Based on your activity and goal, a range of ''
     @ two_decimal_text min_gkg @ ''-'' @ two_decimal_text max_gkg @ '' g/kg is appropriate. ''
     @ ''Using your body weight, that translates to the amounts shown. ''
     @ ''Hitting the middle of the range is a practical daily target.''"

definition rationale_claimed :: "ProteinResponse \<Rightarrow> string" where
  "rationale_claimed resp =
     rationale_two_decimals (fst (grams_per_kg_range resp)) (snd (grams_per_kg_range resp))"

text \<open>A digit, a point and a digit: a number printed with exactly one decimal.\<close>

definition one_decimal :: "string \<Rightarrow> bool" where
  "one_decimal s \<longleftrightarrow>
     (case s of
        [a, p, b] \<Rightarrow> a \<in> set ''0123456789'' \<and> p = CHR ''.'' \<and> b \<in> set ''0123456789''
      | _ \<Rightarrow> False)"

text \<open>The request of the specification's first example, and one with 79 kg.\<close>

definition example_request :: ProteinRequest where
  "example_request =
     \<lparr>weight = 80, unit = Kg, activity = Moderate, goal = Maintenance, age = None, sex = None\<rparr>"

definition request_79kg :: ProteinRequest where
  "request_79kg =
     \<lparr>weight = 79, unit = Kg, activity = Moderate, goal = Maintenance, age = None, sex = None\<rparr>"

section \<open>Facts about rounding\<close>

subsection \<open>Rounding to an integer\<close>

lemma rhe_of_int: "rhe (of_int n) = n"
  by (simp add: rhe_def)

lemma rhe_lower: "x - 1 / 2 \<le> of_int (rhe x)"
  unfolding rhe_def Let_def by (auto; linarith)

lemma rhe_upper: "of_int (rhe x) \<le> x + 1 / 2"
  unfolding rhe_def Let_def by (auto; linarith)

lemma rhe_floor_le: "\<lfloor>x\<rfloor> \<le> rhe x"
  unfolding rhe_def Let_def by auto

lemma rhe_le_floor_Suc: "rhe x \<le> \<lfloor>x\<rfloor> + 1"
  unfolding rhe_def Let_def by auto

lemma rhe_mono:
  assumes "x \<le> y"
  shows "rhe x \<le> rhe y"
proof (cases "\<lfloor>x\<rfloor> = \<lfloor>y\<rfloor>")
  case True
  with assms show ?thesis
    unfolding rhe_def Let_def by auto
next
  case False
  with assms have "\<lfloor>x\<rfloor> + 1 \<le> \<lfloor>y\<rfloor>"
    using floor_mono [of x y] by linarith
  with rhe_le_floor_Suc [of x] rhe_floor_le [of y] show ?thesis
    by linarith
qed

subsection \<open>Powers of two and the binary exponent\<close>

lemma pow2_pos: "0 < (2::rat) powi k"
  by (simp add: power_int_def)

lemma pow2_add: "(2::rat) powi (a + b) = 2 powi a * 2 powi b"
  by (simp add: power_int_add)

lemma pow2_diff: "(2::rat) powi (a - b) = 2 powi a / 2 powi b"
  by (simp add: power_int_diff)

lemma pow2_mono: "a \<le> b \<Longrightarrow> (2::rat) powi a \<le> 2 powi b"
  by (simp add: power_int_increasing)

lemma pow2_strict_mono: "a < b \<Longrightarrow> (2::rat) powi a < 2 powi b"
  by (simp add: power_int_strict_increasing)

lemma pow2_less_D: "(2::rat) powi a < 2 powi b \<Longrightarrow> a < b"
  using pow2_mono [of b a] by (cases "a < b") auto

lemma bitlen_bounds_rat:
  assumes "0 < p"
  shows "(2::rat) powi (bitlen p - 1) \<le> of_int p" and "of_int p < (2::rat) powi bitlen p"
proof -
  from assms have b1: "1 \<le> bitlen p"
    by (auto simp: bitlen_alt_def)
  from bitlen_bounds [OF assms]
  have lo: "2 ^ nat (bitlen p - 1) \<le> p" and hi: "p < 2 ^ nat (bitlen p)"
    by simp_all
  from lo have "(of_int (2 ^ nat (bitlen p - 1)) :: rat) \<le> of_int p"
    by (simp only: of_int_le_iff)
  with b1 show "(2::rat) powi (bitlen p - 1) \<le> of_int p"
    by (simp add: power_int_nonneg_exp)
  from hi have "(of_int p :: rat) < of_int (2 ^ nat (bitlen p))"
    by (simp only: of_int_less_iff)
  with b1 show "of_int p < (2::rat) powi bitlen p"
    by (simp add: power_int_nonneg_exp)
qed

lemma ilog2_bounds:
  assumes "0 < x"
  shows "2 powi ilog2 x \<le> x" and "x < 2 powi (ilog2 x + 1)"
proof -
  obtain p d where pd: "quotient_of x = (p, d)"
    by (cases "quotient_of x")
  then have d: "0 < d" and x: "x = of_int p / of_int d"
    by (simp_all add: quotient_of_denom_pos quotient_of_div)
  with assms have p: "0 < p"
    by (simp add: zero_less_divide_iff)
  define e0 where "e0 = bitlen p - bitlen d"
  have dr: "(0::rat) < of_int d" using d by simp
  have "x * of_int d = of_int p" using x dr by simp
  have up: "x < 2 powi (e0 + 1)"
  proof -
    have "of_int p < (2::rat) powi bitlen p"
      by (rule bitlen_bounds_rat [OF p])
    also have "\<dots> = 2 powi (e0 + 1) * 2 powi (bitlen d - 1)"
      by (simp add: e0_def flip: pow2_add)
    also have "\<dots> \<le> 2 powi (e0 + 1) * of_int d"
      using bitlen_bounds_rat(1) [OF d] pow2_pos [of "e0 + 1"]
      by (simp add: mult_left_mono)
    finally show ?thesis
      using dr by (simp add: x pos_divide_less_eq)
  qed
  have low: "2 powi (e0 - 1) \<le> x"
  proof -
    have "2 powi (e0 - 1) * of_int d \<le> 2 powi (e0 - 1) * (2::rat) powi bitlen d"
      using bitlen_bounds_rat(2) [OF d] pow2_pos [of "e0 - 1"]
      by (simp add: mult_left_mono)
    also have "\<dots> = 2 powi (bitlen p - 1)"
      by (simp add: e0_def flip: pow2_add)
    also have "\<dots> \<le> of_int p"
      by (rule bitlen_bounds_rat [OF p])
    finally show ?thesis
      using dr by (simp add: x pos_le_divide_eq)
  qed
  have il: "ilog2 x = (if 2 powi e0 \<le> x then e0 else e0 - 1)"
    by (simp add: ilog2_def pd e0_def Let_def)
  show "2 powi ilog2 x \<le> x"
    using low by (simp add: il)
  show "x < 2 powi (ilog2 x + 1)"
    using up by (simp add: il not_le)
qed

lemma ilog2_unique:
  assumes "2 powi e \<le> x" and "x < 2 powi (e + 1)"
  shows "ilog2 x = e"
proof -
  have x: "0 < x"
    using pow2_pos [of e] assms(1) by linarith
  from ilog2_bounds [OF x] assms
  have "(2::rat) powi ilog2 x < 2 powi (e + 1)" and "(2::rat) powi e < 2 powi (ilog2 x + 1)"
    by linarith+
  then have "ilog2 x < e + 1" and "e < ilog2 x + 1"
    by (auto dest: pow2_less_D)
  then show ?thesis by linarith
qed

lemma ilog2_mono:
  assumes "0 < x" and "x \<le> y"
  shows "ilog2 x \<le> ilog2 y"
proof -
  have y: "0 < y" using assms by linarith
  from ilog2_bounds(1) [OF assms(1)] ilog2_bounds(2) [OF y] assms(2)
  have "(2::rat) powi ilog2 x < 2 powi (ilog2 y + 1)"
    by linarith
  then have "ilog2 x < ilog2 y + 1"
    by (rule pow2_less_D)
  then show ?thesis by linarith
qed


subsection \<open>Rounding to 53 bits: sign, exactness, monotonicity, error\<close>

lemma ulp_exp_ge: "- 1074 \<le> ulp_exp x" and ulp_exp_ge_ilog2: "ilog2 \<bar>x\<bar> - 52 \<le> ulp_exp x"
  by (simp_all add: ulp_exp_def)

lemma ulp_exp_mono:
  assumes "0 < x" and "x \<le> y"
  shows "ulp_exp x \<le> ulp_exp y"
  using ilog2_mono [of "\<bar>x\<bar>" "\<bar>y\<bar>"] assms by (simp add: ulp_exp_def)

lemma ulp_exp_le:
  assumes "0 < x" and "x < 2 powi (k + 53)" and "- 1074 \<le> k"
  shows "ulp_exp x \<le> k"
proof -
  from ilog2_bounds(1) [OF assms(1)] assms(2)
  have "(2::rat) powi ilog2 x < 2 powi (k + 53)"
    by linarith
  then have "ilog2 x < k + 53"
    by (rule pow2_less_D)
  with assms(1,3) show ?thesis
    by (simp add: ulp_exp_def)
qed

lemma fl_pos_eq:
  "0 < x \<Longrightarrow> fl x = of_int (rhe (x / 2 powi ulp_exp x)) * 2 powi ulp_exp x"
  by (simp add: fl_def)

lemma rhe_nonneg: "0 \<le> x \<Longrightarrow> 0 \<le> rhe x"
  using rhe_floor_le [of x] by (simp add: order_trans [of 0 "\<lfloor>x\<rfloor>"])

lemma fl_nonneg:
  assumes "0 \<le> x"
  shows "0 \<le> fl x"
proof -
  from assms pow2_pos [of "ulp_exp x"] have "0 \<le> x / 2 powi ulp_exp x"
    by simp
  then have "0 \<le> rhe (x / 2 powi ulp_exp x)"
    by (rule rhe_nonneg)
  with pow2_pos [of "ulp_exp x"] show ?thesis
    by (simp add: fl_def)
qed

lemma fl_exactI:
  assumes "x = of_int m * 2 powi k" and "ulp_exp x \<le> k"
  shows "fl x = x"
proof (cases "x = 0")
  case True
  then show ?thesis by (simp add: fl_def)
next
  case False
  define u where "u = ulp_exp x"
  have "(2::rat) powi k = 2 powi (k - u) * 2 powi u"
    by (simp flip: pow2_add)
  moreover have "(2::rat) powi (k - u) = of_int (2 ^ nat (k - u))"
    using assms(2) by (simp add: u_def power_int_nonneg_exp)
  ultimately have "x / 2 powi u = of_int (m * 2 ^ nat (k - u))"
    using pow2_pos [of u] by (simp add: assms(1))
  then have "rhe (x / 2 powi u) = m * 2 ^ nat (k - u)"
    by (simp only: rhe_of_int)
  then have "fl x = of_int (m * 2 ^ nat (k - u)) * 2 powi u"
    using False by (simp add: fl_def u_def)
  also have "\<dots> = x / 2 powi u * 2 powi u"
    using \<open>x / 2 powi u = of_int (m * 2 ^ nat (k - u))\<close> by simp
  also have "\<dots> = x"
    using pow2_pos [of u] by simp
  finally show ?thesis .
qed

lemma fl_pow2:
  assumes "- 1074 \<le> k"
  shows "fl (2 powi k) = 2 powi k"
proof (rule fl_exactI [where m = 1 and k = k])
  show "(2::rat) powi k = of_int 1 * 2 powi k"
    by simp
  have "ilog2 (2 powi k) = k"
    by (rule ilog2_unique) (simp_all add: pow2_strict_mono)
  with assms pow2_pos [of k] show "ulp_exp (2 powi k) \<le> k"
    by (simp add: ulp_exp_def)
qed

lemma fl_of_int:
  assumes "\<bar>n\<bar> < 2 ^ 53"
  shows "fl (of_int n) = of_int n"
proof (cases "n = 0")
  case True
  then show ?thesis by (simp add: fl_def)
next
  case False
  show ?thesis
  proof (rule fl_exactI [where m = n and k = 0])
    show "(of_int n :: rat) = of_int n * 2 powi 0"
      by simp
    have "ulp_exp \<bar>of_int n :: rat\<bar> \<le> 0"
    proof (rule ulp_exp_le)
      show "0 < \<bar>of_int n :: rat\<bar>" using False by simp
      have "(of_int \<bar>n\<bar> :: rat) < of_int (2 ^ 53)"
        using assms by (simp only: of_int_less_iff)
      then show "\<bar>of_int n :: rat\<bar> < 2 powi (0 + 53)"
        by simp
    qed simp
    then show "ulp_exp (of_int n) \<le> 0"
      by (simp add: ulp_exp_def)
  qed
qed

lemma fl_mono:
  assumes "0 \<le> x" and "x \<le> y"
  shows "fl x \<le> fl y"
proof (cases "x = 0")
  case True
  with assms fl_nonneg [of y] show ?thesis
    by (simp add: fl_def)
next
  case False
  with assms have x: "0 < x" and y: "0 < y"
    by linarith+
  define u where "u = ulp_exp x"
  define v where "v = ulp_exp y"
  have uv: "u \<le> v"
    unfolding u_def v_def by (rule ulp_exp_mono [OF x assms(2)])
  have flx: "fl x = of_int (rhe (x / 2 powi u)) * 2 powi u"
    unfolding u_def by (rule fl_pos_eq [OF x])
  have fly: "fl y = of_int (rhe (y / 2 powi v)) * 2 powi v"
    unfolding v_def by (rule fl_pos_eq [OF y])
  show ?thesis
  proof (cases "u = v")
    case True
    from assms(2) pow2_pos [of v] have "x / 2 powi v \<le> y / 2 powi v"
      by (simp add: divide_right_mono)
    then have "rhe (x / 2 powi v) \<le> rhe (y / 2 powi v)"
      by (rule rhe_mono)
    then have "(of_int (rhe (x / 2 powi v)) :: rat) \<le> of_int (rhe (y / 2 powi v))"
      by (simp only: of_int_le_iff)
    with pow2_pos [of v] show ?thesis
      by (simp add: flx fly True mult_right_mono)
  next
    case False
    with uv have lt: "u + 1 \<le> v" by linarith
    have vge: "- 1074 \<le> u"
      unfolding u_def by (rule ulp_exp_ge)
    with lt y have v_eq: "v = ilog2 y - 52"
      by (simp add: v_def ulp_exp_def max_def split: if_splits)
    have "ilog2 x - 52 \<le> u"
      using x by (simp add: u_def ulp_exp_def)
    then have "(2::rat) powi (ilog2 x + 1) \<le> 2 powi (u + 53)"
      by (intro pow2_mono) linarith
    with ilog2_bounds(2) [OF x] have "x < 2 powi (u + 53)"
      by linarith
    also have "\<dots> = of_int (2 ^ 53) * 2 powi u"
      by (simp add: pow2_add)
    finally have "x / 2 powi u \<le> of_int (2 ^ 53)"
      using pow2_pos [of u] by (simp add: pos_divide_le_eq)
    then have "rhe (x / 2 powi u) \<le> rhe (of_int (2 ^ 53))"
      by (rule rhe_mono)
    then have "rhe (x / 2 powi u) \<le> 2 ^ 53"
      by (simp only: rhe_of_int)
    then have "(of_int (rhe (x / 2 powi u)) :: rat) \<le> of_int (2 ^ 53)"
      by (simp only: of_int_le_iff)
    then have "fl x \<le> of_int (2 ^ 53) * 2 powi u"
      using pow2_pos [of u] by (simp only: flx mult_right_mono)
    also have "\<dots> = 2 powi (u + 53)"
      by (simp add: pow2_add)
    also have "\<dots> \<le> 2 powi (v + 52)"
      using lt by (intro pow2_mono) linarith
    finally have left: "fl x \<le> 2 powi (v + 52)" .
    have "2 powi (v + 52) \<le> y"
      using ilog2_bounds(1) [OF y] by (simp add: v_eq)
    moreover have "(2::rat) powi (v + 52) = of_int (2 ^ 52) * 2 powi v"
      by (simp add: pow2_add)
    ultimately have "of_int (2 ^ 52) \<le> y / 2 powi v"
      using pow2_pos [of v] by (simp add: pos_le_divide_eq)
    then have "rhe (of_int (2 ^ 52)) \<le> rhe (y / 2 powi v)"
      by (rule rhe_mono)
    then have "2 ^ 52 \<le> rhe (y / 2 powi v)"
      by (simp only: rhe_of_int)
    then have "(of_int (2 ^ 52) :: rat) \<le> of_int (rhe (y / 2 powi v))"
      by (simp only: of_int_le_iff)
    then have "of_int (2 ^ 52) * 2 powi v \<le> fl y"
      using pow2_pos [of v] by (simp only: fly mult_right_mono)
    then have "2 powi (v + 52) \<le> fl y"
      by (simp add: pow2_add)
    with left show ?thesis by linarith
  qed
qed

lemma fl_error:
  assumes "0 < x"
  shows "\<bar>fl x - x\<bar> \<le> 2 powi (ulp_exp x - 1)"
proof -
  define u where "u = ulp_exp x"
  define z where "z = x / 2 powi u"
  have x_eq: "x = z * 2 powi u"
    using pow2_pos [of u] by (simp add: z_def)
  have "fl x - x = (of_int (rhe z) - z) * 2 powi u"
    using assms by (simp add: fl_def u_def z_def algebra_simps flip: x_eq) 
  moreover have "\<bar>of_int (rhe z) - z\<bar> \<le> 1 / 2"
    using rhe_lower [of z] rhe_upper [of z] by linarith
  ultimately have "\<bar>fl x - x\<bar> \<le> 1 / 2 * 2 powi u"
    using pow2_pos [of u] by (simp add: abs_mult mult_right_mono)
  also have "\<dots> = 2 powi (u - 1)"
    by (simp add: pow2_diff)
  finally show ?thesis
    by (simp add: u_def)
qed

lemma fl_twice:
  assumes "0 \<le> x" and "fl x = x"
  shows "fl (2 * x) = 2 * x"
proof (cases "x = 0")
  case True
  then show ?thesis by (simp add: fl_def)
next
  case False
  with assms have x: "0 < x" by linarith
  define u where "u = ulp_exp x"
  have "ilog2 (2 * x) = ilog2 x + 1"
  proof (rule ilog2_unique)
    show "2 powi (ilog2 x + 1) \<le> 2 * x"
      using ilog2_bounds(1) [OF x] by (simp add: pow2_add)
    show "2 * x < 2 powi (ilog2 x + 1 + 1)"
      using ilog2_bounds(2) [OF x] by (simp add: pow2_add)
  qed
  with x have u2: "ulp_exp (2 * x) \<le> u + 1"
    by (simp add: ulp_exp_def u_def max_def)
  have "x = of_int (rhe (x / 2 powi u)) * 2 powi u"
    using fl_pos_eq [OF x] assms(2) by (simp add: u_def)
  then have "2 * x = of_int (rhe (x / 2 powi u)) * 2 powi (u + 1)"
    by (simp add: pow2_add)
  then show ?thesis
    using u2 by (rule fl_exactI)
qed

subsection \<open>Results that stay in range\<close>

lemma in_range_le_pow2:
  assumes "0 \<le> r" and "r \<le> 2 powi k" and "k \<le> 1023"
  shows "in_range r"
proof (cases "r = 0")
  case True
  then show ?thesis by (simp add: in_range_def)
next
  case False
  with assms(1) have r: "0 < r" by linarith
  have "(2::rat) powi k < 2 powi 1024"
    using assms(3) by (intro pow2_strict_mono) linarith
  with ilog2_bounds(1) [OF r] assms(2) have "(2::rat) powi ilog2 r < 2 powi 1024"
    by linarith
  then have "ilog2 r < 1024"
    by (rule pow2_less_D)
  with r show ?thesis
    by (simp add: in_range_def)
qed

lemma fl_le_pow2:
  assumes "0 \<le> x" and "x \<le> 2 powi k" and "- 1074 \<le> k"
  shows "fl x \<le> 2 powi k"
  using fl_mono [OF assms(1,2)] fl_pow2 [OF assms(3)] by simp

lemma to_double_le_pow2:
  assumes "0 \<le> x" and "x \<le> 2 powi k" and "- 1074 \<le> k" and "k \<le> 1023"
  shows "to_double x = Inr (fl x)" and "0 \<le> fl x" and "fl x \<le> 2 powi k"
proof -
  show nn: "0 \<le> fl x"
    by (rule fl_nonneg [OF assms(1)])
  show le: "fl x \<le> 2 powi k"
    by (rule fl_le_pow2 [OF assms(1-3)])
  from in_range_le_pow2 [OF nn le assms(4)] show "to_double x = Inr (fl x)"
    by (simp add: to_double_def)
qed

lemma to_double_Inr_D: "to_double x = Inr r \<Longrightarrow> r = fl x"
  by (simp add: to_double_def Let_def split: if_splits)

lemma to_double_of_int:
  assumes "\<bar>n\<bar> < 2 ^ 53"
  shows "to_double (of_int n) = Inr (of_int n)"
proof -
  have f: "fl (of_int n) = of_int n"
    by (rule fl_of_int [OF assms])
  have "in_range (of_int \<bar>n\<bar>)"
  proof (rule in_range_le_pow2 [where k = 53])
    have "(of_int \<bar>n\<bar> :: rat) \<le> of_int (2 ^ 53)"
      using assms by (simp only: of_int_le_iff)
    then show "(of_int \<bar>n\<bar> :: rat) \<le> 2 powi 53"
      by simp
  qed simp_all
  then have "in_range (of_int n)"
    by (simp add: in_range_def)
  with f show ?thesis
    by (simp add: to_double_def)
qed

section \<open>Facts about the float operations\<close>

lemma err_bind_Inr [simp]: "err_bind (Inr v) k = k v"
  and err_bind_Inl [simp]: "err_bind (Inl e) k = Inl e"
  by (simp_all add: err_bind_def)

lemma err_bind_eq_Inr_iff:
  "err_bind m k = Inr r \<longleftrightarrow> (\<exists>v. m = Inr v \<and> k v = Inr r)"
  by (cases m) simp_all

lemma fmul_ok:
  assumes "0 \<le> x" and "0 \<le> y" and "x * y \<le> 2 powi k" and "- 1074 \<le> k" and "k \<le> 1023"
  shows "fmul x y = Inr (fl (x * y))" and "0 \<le> fl (x * y)" and "fl (x * y) \<le> 2 powi k"
proof -
  from assms(1,2) have "0 \<le> x * y" by simp
  from to_double_le_pow2 [OF this assms(3-5)]
  show "fmul x y = Inr (fl (x * y))" and "0 \<le> fl (x * y)" and "fl (x * y) \<le> 2 powi k"
    by (simp_all add: fmul_def)
qed

lemma fadd_ok:
  assumes "0 \<le> x" and "0 \<le> y" and "x + y \<le> 2 powi k" and "- 1074 \<le> k" and "k \<le> 1023"
  shows "fadd x y = Inr (fl (x + y))" and "0 \<le> fl (x + y)" and "fl (x + y) \<le> 2 powi k"
proof -
  from assms(1,2) have "0 \<le> x + y" by simp
  from to_double_le_pow2 [OF this assms(3-5)]
  show "fadd x y = Inr (fl (x + y))" and "0 \<le> fl (x + y)" and "fl (x + y) \<le> 2 powi k"
    by (simp_all add: fadd_def)
qed

lemma fdiv_ok:
  assumes "0 \<le> x" and "0 < y" and "x / y \<le> 2 powi k" and "- 1074 \<le> k" and "k \<le> 1023"
  shows "fdiv x y = Inr (fl (x / y))" and "0 \<le> fl (x / y)" and "fl (x / y) \<le> 2 powi k"
proof -
  from assms(1,2) have "0 \<le> x / y" by simp
  from to_double_le_pow2 [OF this assms(3-5)] assms(2)
  show "fdiv x y = Inr (fl (x / y))" and "0 \<le> fl (x / y)" and "fl (x / y) \<le> 2 powi k"
    by (simp_all add: fdiv_def)
qed

lemma float_of_int_ok: "\<bar>n\<bar> < 2 ^ 53 \<Longrightarrow> float_of_int n = Inr (of_int n)"
  by (simp add: float_of_int_def to_double_of_int)

lemma fmul_Inr_D: "fmul x y = Inr r \<Longrightarrow> r = fl (x * y)"
  and fadd_Inr_D: "fadd x y = Inr r \<Longrightarrow> r = fl (x + y)"
  and fdiv_Inr_D: "fdiv x y = Inr r \<Longrightarrow> r = fl (x / y) \<and> y \<noteq> 0"
  by (auto simp: fmul_def fadd_def fdiv_def dest: to_double_Inr_D split: if_splits)

lemma py_round_bounds:
  assumes "0 \<le> x" and "x \<le> of_int n"
  shows "0 \<le> py_round x" and "py_round x \<le> n"
proof -
  show "0 \<le> py_round x"
    using rhe_nonneg [OF assms(1)] by (simp add: py_round_def)
  from rhe_mono [OF assms(2)] show "py_round x \<le> n"
    by (simp add: py_round_def rhe_of_int)
qed

section \<open>Facts about the daily grams\<close>

lemma daily_grams_Inr_D:
  assumes "daily_grams lo hi w = Inr (a, b, t)"
  shows "a = py_round (fl (lo * w))" and "b = py_round (fl (hi * w))"
    and "t = py_round (fl (fl (fl (lo + hi) / 2) * w))"
  using assms
  by (auto simp: daily_grams_def err_bind_eq_Inr_iff
      dest!: fmul_Inr_D fadd_Inr_D fdiv_Inr_D)

lemma midpoint_between:
  assumes "fl lo = lo" and "fl hi = hi" and "0 \<le> lo" and "lo \<le> hi"
  shows "lo \<le> fl (fl (lo + hi) / 2)" and "fl (fl (lo + hi) / 2) \<le> hi"
proof -
  have hi0: "0 \<le> hi" using assms(3,4) by linarith
  have "fl (2 * lo) \<le> fl (lo + hi)"
    using assms(3,4) by (intro fl_mono) simp_all
  then have l: "2 * lo \<le> fl (lo + hi)"
    by (simp add: fl_twice [OF assms(3,1)])
  have "fl (lo + hi) \<le> fl (2 * hi)"
    using assms(3,4) by (intro fl_mono) simp_all
  then have u: "fl (lo + hi) \<le> 2 * hi"
    by (simp add: fl_twice [OF hi0 assms(2)])
  have "fl lo \<le> fl (fl (lo + hi) / 2)"
    using l assms(3) by (intro fl_mono) simp_all
  then show "lo \<le> fl (fl (lo + hi) / 2)"
    by (simp add: assms(1))
  have "0 \<le> fl (lo + hi)"
    using assms(3) hi0 by (intro fl_nonneg) simp
  then have "fl (fl (lo + hi) / 2) \<le> fl hi"
    using u by (intro fl_mono) simp_all
  then show "fl (fl (lo + hi) / 2) \<le> hi"
    by (simp add: assms(2))
qed

lemma daily_grams_ordered:
  assumes "fl lo = lo" and "fl hi = hi" and "0 \<le> lo" and "lo \<le> hi" and "0 \<le> w"
  shows "py_round (fl (lo * w)) \<le> py_round (fl (fl (fl (lo + hi) / 2) * w))"
    and "py_round (fl (fl (fl (lo + hi) / 2) * w)) \<le> py_round (fl (hi * w))"
proof -
  define mid where "mid = fl (fl (lo + hi) / 2)"
  have m: "lo \<le> mid" "mid \<le> hi"
    unfolding mid_def by (rule midpoint_between [OF assms(1-4)])+
  have "fl (lo * w) \<le> fl (mid * w)"
    using m(1) assms(3,5) by (intro fl_mono mult_right_mono) simp_all
  then show "py_round (fl (lo * w)) \<le> py_round (fl (fl (fl (lo + hi) / 2) * w))"
    unfolding py_round_def mid_def by (rule rhe_mono)
  have "0 \<le> mid" using m(1) assms(3) by linarith
  then have "fl (mid * w) \<le> fl (hi * w)"
    using m(2) assms(5) by (intro fl_mono mult_right_mono) simp_all
  then show "py_round (fl (fl (fl (lo + hi) / 2) * w)) \<le> py_round (fl (hi * w))"
    unfolding py_round_def mid_def by (rule rhe_mono)
qed

lemma daily_grams_total:
  assumes "0 \<le> lo" and "lo \<le> hi" and "hi \<le> 4" and "0 \<le> w" and "w \<le> 1024"
  shows "daily_grams lo hi w =
           Inr (py_round (fl (lo * w)), py_round (fl (hi * w)),
                py_round (fl (fl (fl (lo + hi) / 2) * w)))"
    and "0 \<le> py_round (fl (fl (fl (lo + hi) / 2) * w))"
    and "py_round (fl (fl (fl (lo + hi) / 2) * w)) \<le> 4096"
proof -
  have hi0: "0 \<le> hi" and lo4: "lo \<le> 4"
    using assms(1-3) by linarith+
  have "lo * w \<le> 4 * 1024"
    using lo4 assms by (intro mult_mono) simp_all
  then have "lo * w \<le> 2 powi 12" by simp
  note a = fmul_ok(1) [OF assms(1) assms(4) this]
  have "hi * w \<le> 4 * 1024"
    using assms hi0 by (intro mult_mono) simp_all
  then have "hi * w \<le> 2 powi 12" by simp
  note b = fmul_ok(1) [OF hi0 assms(4) this]
  have "lo + hi \<le> 2 powi 3"
    using lo4 assms(3) by simp
  note s = fadd_ok [OF assms(1) hi0 this]
  have "fl (lo + hi) / 2 \<le> 2 powi 2"
    using s(3) by simp
  note m = fdiv_ok [OF s(2) _ this]
  have "fl (fl (lo + hi) / 2) * w \<le> 4 * 1024"
    using m(2,3) assms(4,5) by (intro mult_mono) simp_all
  then have "fl (fl (lo + hi) / 2) * w \<le> 2 powi 12" by simp
  note t = fmul_ok [OF m(2) assms(4) this]
  show "daily_grams lo hi w =
           Inr (py_round (fl (lo * w)), py_round (fl (hi * w)),
                py_round (fl (fl (fl (lo + hi) / 2) * w)))"
    by (simp add: daily_grams_def a b s(1) m(1) t(1))
  have "fl (fl (fl (lo + hi) / 2) * w) \<le> of_int 4096"
    using t(3) by simp
  from py_round_bounds [OF _ this] t(2)
  show "0 \<le> py_round (fl (fl (fl (lo + hi) / 2) * w))"
    and "py_round (fl (fl (fl (lo + hi) / 2) * w)) \<le> 4096"
    by simp_all
qed

section \<open>Facts about the meal plans\<close>

lemma round5_ok:
  assumes "0 \<le> x" and "x \<le> 2 powi 17"
  shows "round5 x = Inr (py_round (fl (x / 5)) * 5)"
proof -
  have "x / 5 \<le> 2 powi 17"
    using assms by simp
  from fdiv_ok(1) [OF assms(1) _ this] show ?thesis
    by (simp add: round5_def)
qed

lemma round5_Inr_D: "round5 x = Inr r \<Longrightarrow> r = py_round (fl (x / 5)) * 5"
  by (auto simp: round5_def err_bind_eq_Inr_iff dest!: fdiv_Inr_D)

lemma percent_fraction:
  assumes "0 \<le> c" and "c \<le> 100"
  shows "fdiv (of_int c) 100 = Inr (fl (of_int c / 100))"
    and "0 \<le> fl (of_int c / 100)" and "fl (of_int c / 100) \<le> 1"
proof -
  have c0: "(0::rat) \<le> of_int c"
    using assms(1) by simp
  have "(of_int c :: rat) \<le> 100"
    using assms(2) by simp
  then have "(of_int c :: rat) / 100 \<le> 2 powi 0"
    by simp
  from fdiv_ok [OF c0 _ this]
  show "fdiv (of_int c) 100 = Inr (fl (of_int c / 100))"
    and "0 \<le> fl (of_int c / 100)" and "fl (of_int c / 100) \<le> 1"
    by simp_all
qed

lemma protein_fraction_pos:
  assumes "13 \<le> p"
  shows "1 / 8 \<le> fl (of_int p / 100)"
proof -
  have "(13::rat) \<le> of_int p"
    using assms by simp
  then have "(1::rat) / 8 \<le> of_int p / 100"
    by simp
  then have "fl (1 / 8) \<le> fl (of_int p / 100)"
    by (intro fl_mono) simp_all
  moreover have "fl (2 powi (- 3)) = 2 powi (- 3)"
    by (rule fl_pow2) simp
  ultimately show ?thesis
    by simp
qed

lemma make_plan_total:
  assumes "0 \<le> t" and "t \<le> 4096" and "13 \<le> p" and "p \<le> 100"
    and "0 \<le> c" and "c \<le> 100" and "0 \<le> f" and "f \<le> 100"
  shows "make_plan nm tag (p, c, f) t =
           Inr \<lparr>name = nm, tagline = tag,
                macros = \<lparr>protein_g = py_round (fl (of_int t / 5)) * 5,
                           carbs_g = py_round (fl (raw_carbs_of p c t / 5)) * 5,
                           fats_g = py_round (fl (raw_fats_of p f t / 5)) * 5,
                           split_percent = [(''protein'', p), (''carbs'', c), (''fats'', f)],
                           calories = py_round (total_kcal_of p t)\<rparr>,
                sample_meals =
                  (case base_meals nm of None \<Rightarrow> default_meals | Some meals \<Rightarrow> meals)\<rparr>"
proof -
  have t0: "(0::rat) \<le> of_int t" and t1: "(of_int t :: rat) \<le> 4096"
    using assms(1,2) by simp_all
  have ft: "float_of_int t = Inr (of_int t)"
    using assms(1,2) by (intro float_of_int_ok) simp
  have "(of_int t :: rat) * 4 \<le> 2 powi 14"
    using t1 by simp
  note pk = fmul_ok [OF t0 _ this]
  have fp: "float_of_int p = Inr (of_int p)"
    using assms(3,4) by (intro float_of_int_ok) simp
  have p0: "0 \<le> p" using assms(3) by simp
  note pf = percent_fraction [OF p0 assms(4)]
  note pf8 = protein_fraction_pos [OF assms(3)]
  have pfpos: "0 < fl (of_int p / 100)"
    using pf8 by simp
  have "fl (of_int t * 4) / fl (of_int p / 100) \<le> fl (of_int t * 4) / (1 / 8)"
    using pk(2) pf8 by (intro divide_left_mono) simp_all
  also have "\<dots> \<le> 2 powi 14 * 8"
    using pk(3) by simp
  finally have "fl (of_int t * 4) / fl (of_int p / 100) \<le> 2 powi 17"
    by simp
  note tk = fdiv_ok [OF pk(2) pfpos this]
  define total where "total = total_kcal_of p t"
  have total_eq: "fl (fl (of_int t * 4) / fl (of_int p / 100)) = total"
    by (simp add: total_def total_kcal_of_def)
  have total: "0 \<le> total" "total \<le> 2 powi 17"
    using tk(2,3) by (simp_all add: total_eq)
  have fc: "float_of_int c = Inr (of_int c)"
    using assms(5,6) by (intro float_of_int_ok) simp
  note cf = percent_fraction [OF assms(5,6)]
  have "total * fl (of_int c / 100) \<le> total * 1"
    using total(1) cf(3) by (intro mult_left_mono)
  with total(2) have "total * fl (of_int c / 100) \<le> 2 powi 17"
    by simp
  note ck = fmul_ok [OF total(1) cf(2) this]
  have "fl (total * fl (of_int c / 100)) / 4 \<le> 2 powi 17"
    using ck(2,3) by simp
  note cg = fdiv_ok [OF ck(2) _ this]
  have ff: "float_of_int f = Inr (of_int f)"
    using assms(7,8) by (intro float_of_int_ok) simp
  note fr = percent_fraction [OF assms(7,8)]
  have "total * fl (of_int f / 100) \<le> total * 1"
    using total(1) fr(3) by (intro mult_left_mono)
  with total(2) have "total * fl (of_int f / 100) \<le> 2 powi 17"
    by simp
  note fk = fmul_ok [OF total(1) fr(2) this]
  have "fl (total * fl (of_int f / 100)) / 9 \<le> 2 powi 17"
    using fk(2,3) by simp
  note fg = fdiv_ok [OF fk(2) _ this]
  have "(of_int t :: rat) \<le> 2 powi 17"
    using t1 by simp
  note r1 = round5_ok [OF t0 this]
  note r2 = round5_ok [OF cg(2,3)]
  note r3 = round5_ok [OF fg(2,3)]
  have carbs_eq: "raw_carbs_of p c t = fl (fl (total * fl (of_int c / 100)) / 4)"
    and fats_eq: "raw_fats_of p f t = fl (fl (total * fl (of_int f / 100)) / 9)"
    by (simp_all add: raw_carbs_of_def raw_fats_of_def total_def)
  show ?thesis
    unfolding carbs_eq fats_eq total_def [symmetric]
    using pfpos
    by (simp add: make_plan_def ft pk(1) fp pf(1) tk(1) [unfolded total_eq] total_eq
        fc cf(1) ck(1) cg(1) ff fr(1) fk(1) fg(1) r1 r2 r3)
qed

text \<open>The four adjusted splits are within the bounds that \<open>make_plan_total\<close> asks for.\<close>

lemma base_splits_eq: "base_splits = [(30, 45, 25), (35, 35, 30), (25, 50, 25), (20, 60, 20)]"
  by (simp add: base_splits_def archetypes_def)

lemma p_bump_of_simps:
  "p_bump_of FatLoss = 5" "p_bump_of Maintenance = 0" "p_bump_of MuscleGain = 0"
  by (simp_all add: p_bump_of_def goal_adj_def)

lemma adjust_split_table:
  "adjust_split 5 (30, 45, 25) = (35, 40, 25)"
  "adjust_split 5 (35, 35, 30) = (40, 30, 30)"
  "adjust_split 5 (25, 50, 25) = (30, 45, 25)"
  "adjust_split 5 (20, 60, 20) = (25, 55, 20)"
  "adjust_split 0 (30, 45, 25) = (30, 45, 25)"
  "adjust_split 0 (35, 35, 30) = (35, 35, 30)"
  "adjust_split 0 (25, 50, 25) = (25, 50, 25)"
  "adjust_split 0 (20, 60, 20) = (20, 60, 20)"
  by (simp_all add: adjust_split_def Let_def)

lemma suggestions_for_total:
  assumes "0 \<le> t" and "t \<le> 4096"
    and "\<forall>(nm, tag, pcf) \<in> set rows.
           case adjust_split b pcf of (p, c, f) \<Rightarrow>
             13 \<le> p \<and> p \<le> 100 \<and> 0 \<le> c \<and> c \<le> 100 \<and> 0 \<le> f \<and> f \<le> 100"
  shows "\<exists>plans. suggestions_for b t rows = Inr plans \<and> length plans = length rows \<and>
           (\<forall>plan \<in> set plans. \<exists>p c f.
              split_percent (macros plan) = [(''protein'', p), (''carbs'', c), (''fats'', f)] \<and>
              protein_g (macros plan) = py_round (fl (of_int t / 5)) * 5 \<and>
              carbs_g (macros plan) = py_round (fl (raw_carbs_of p c t / 5)) * 5 \<and>
              fats_g (macros plan) = py_round (fl (raw_fats_of p f t / 5)) * 5 \<and>
              calories (macros plan) = py_round (total_kcal_of p t))"
  using assms(3)
proof (induction rows)
  case Nil
  then show ?case by simp
next
  case (Cons row rows)
  obtain nm tag pcf where row: "row = (nm, tag, pcf)"
    by (cases row)
  obtain p c f where adj: "adjust_split b pcf = (p, c, f)"
    by (cases "adjust_split b pcf")
  from Cons.prems row adj
  have bounds: "13 \<le> p" "p \<le> 100" "0 \<le> c" "c \<le> 100" "0 \<le> f" "f \<le> 100"
    by simp_all
  note plan = make_plan_total [OF assms(1,2) bounds, of nm tag]
  from Cons.IH Cons.prems
  obtain plans where
    rest: "suggestions_for b t rows = Inr plans" "length plans = length rows"
      "\<forall>plan \<in> set plans. \<exists>p c f.
          split_percent (macros plan) = [(''protein'', p), (''carbs'', c), (''fats'', f)] \<and>
          protein_g (macros plan) = py_round (fl (of_int t / 5)) * 5 \<and>
          carbs_g (macros plan) = py_round (fl (raw_carbs_of p c t / 5)) * 5 \<and>
          fats_g (macros plan) = py_round (fl (raw_fats_of p f t / 5)) * 5 \<and>
          calories (macros plan) = py_round (total_kcal_of p t)"
    by auto
  show ?case
    using rest(2,3) by (simp add: row adj plan rest(1))
qed

lemma archetypes_within_bounds:
  "\<forall>(nm, tag, pcf) \<in> set archetypes.
      case adjust_split (p_bump_of g) pcf of (p, c, f) \<Rightarrow>
        13 \<le> p \<and> p \<le> 100 \<and> 0 \<le> c \<and> c \<le> 100 \<and> 0 \<le> f \<and> f \<le> 100"
  by (cases g) (simp_all add: archetypes_def p_bump_of_simps adjust_split_table)

text \<open>Rounding an integer number of grams to a multiple of 5 moves it by at most 2.\<close>

lemma rhe_eqI:
  assumes "of_int n - 1 / 2 < y" and "y < of_int n + 1 / 2"
  shows "rhe y = n"
proof -
  from rhe_lower [of y] rhe_upper [of y] assms
  have "(of_int (rhe y) :: rat) < of_int n + 1" and "(of_int n :: rat) - 1 < of_int (rhe y)"
    by linarith+
  then have "(of_int (rhe y) :: rat) < of_int (n + 1)" and "(of_int (n - 1) :: rat) < of_int (rhe y)"
    by simp_all
  then have "rhe y < n + 1" and "n - 1 < rhe y"
    by (simp_all only: of_int_less_iff)
  then show ?thesis by linarith
qed

lemma round5_int_error:
  assumes "0 \<le> t" and "t \<le> 4096"
  shows "\<bar>py_round (fl (of_int t / 5)) * 5 - t\<bar> \<le> 2"
proof (cases "t = 0")
  case True
  then show ?thesis
    by (simp add: py_round_def fl_def rhe_def)
next
  case False
  define x :: rat where "x = of_int t / 5"
  define k where "k = t div 5"
  define r where "r = t mod 5"
  have t_eq: "t = 5 * k + r" and r: "0 \<le> r" "r < 5"
    by (simp_all add: k_def r_def)
  have x0: "0 < x"
    using False assms(1) by (simp add: x_def)
  have "(of_int t :: rat) \<le> 4096"
    using assms(2) by simp
  then have "x < 2 powi (- 42 + 53)"
    by (simp add: x_def)
  from ulp_exp_le [OF x0 this] have "ulp_exp x - 1 \<le> - 43"
    by simp
  then have "(2::rat) powi (ulp_exp x - 1) \<le> 2 powi (- 43)"
    by (rule pow2_mono)
  also have "\<dots> \<le> 1 / 100"
    by simp
  finally have "\<bar>fl x - x\<bar> \<le> 1 / 100"
    using fl_error [OF x0] by linarith
  then have y: "x - 1 / 100 \<le> fl x" "fl x \<le> x + 1 / 100"
    by linarith+
  have x_eq: "x = of_int k + of_int r / 5"
    by (simp add: x_def t_eq)
  show ?thesis
  proof (cases "r \<le> 2")
    case True
    then have "(of_int r :: rat) \<le> 2" and "(0::rat) \<le> of_int r"
      using r(1) by simp_all
    with y have "rhe (fl x) = k"
      by (intro rhe_eqI) (simp_all add: x_eq)
    then have "py_round (fl (of_int t / 5)) = k"
      by (simp add: py_round_def x_def)
    then show ?thesis
      using t_eq True r(1) by linarith
  next
    case False
    then have "(3::rat) \<le> of_int r" and "(of_int r :: rat) \<le> 4"
      using r(2) by simp_all
    with y have "rhe (fl x) = k + 1"
      by (intro rhe_eqI) (simp_all add: x_eq)
    then have "py_round (fl (of_int t / 5)) = k + 1"
      by (simp add: py_round_def x_def)
    then show ?thesis
      using t_eq False r(2) by linarith
  qed
qed

section \<open>Facts about the range in grams per kilogram\<close>

lemma float_lit_mono: "0 \<le> m \<Longrightarrow> m \<le> n \<Longrightarrow> float_lit m d \<le> float_lit n d"
  unfolding float_lit_def by (intro fl_mono divide_right_mono) simp_all

lemma float_lit_nonneg: "0 \<le> m \<Longrightarrow> 0 \<le> float_lit m d"
  unfolding float_lit_def by (intro fl_nonneg) simp

text \<open>The sums of the goal adjustment, and the roundings to two decimals.\<close>

lemma goal_sums:
  "fadd (float_lit 12 1) (float_lit 2 1) = Inr (float_lit 14 1)"
  "fadd (float_lit 16 1) (float_lit 2 1) = Inr (float_lit 18 1)"
  "fadd (float_lit 18 1) (float_lit 2 1) = Inr 2"
  "fadd 2 (float_lit 2 1) = Inr (float_lit 22 1)"
  "fadd (float_lit 22 1) (float_lit 2 1) = Inr (float_lit 24 1 + 2 powi (- 51))"
  "fadd (float_lit 12 1) (float_lit 1 1) = Inr (float_lit 13 1)"
  "fadd (float_lit 16 1) (float_lit 1 1) = Inr (float_lit 17 1 + 2 powi (- 52))"
  "fadd 2 (float_lit 1 1) = Inr (float_lit 21 1)"
  "fadd (float_lit 18 1) (float_lit 1 1) = Inr (float_lit 19 1 + 2 powi (- 52))"
  "fadd (float_lit 22 1) (float_lit 1 1) = Inr (float_lit 23 1 + 2 powi (- 51))"
  by code_simp+

lemma two_decimals:
  "py_round_ndigits (float_lit 12 1) 2 = Inr (float_lit 12 1)"
  "py_round_ndigits (float_lit 13 1) 2 = Inr (float_lit 13 1)"
  "py_round_ndigits (float_lit 14 1) 2 = Inr (float_lit 14 1)"
  "py_round_ndigits (float_lit 16 1) 2 = Inr (float_lit 16 1)"
  "py_round_ndigits (float_lit 18 1) 2 = Inr (float_lit 18 1)"
  "py_round_ndigits 2 2 = Inr 2"
  "py_round_ndigits (float_lit 21 1) 2 = Inr (float_lit 21 1)"
  "py_round_ndigits (float_lit 22 1) 2 = Inr (float_lit 22 1)"
  "py_round_ndigits (float_lit 17 1 + 2 powi (- 52)) 2 = Inr (float_lit 17 1)"
  "py_round_ndigits (float_lit 19 1 + 2 powi (- 52)) 2 = Inr (float_lit 19 1)"
  "py_round_ndigits (float_lit 23 1 + 2 powi (- 51)) 2 = Inr (float_lit 23 1)"
  "py_round_ndigits (float_lit 24 1 + 2 powi (- 51)) 2 = Inr (float_lit 24 1)"
  by code_simp+

lemma float_lit_2: "float_lit 20 1 = 2"
  by code_simp


lemma clamp_low:
  "max (float_lit 12 1) (float_lit 12 1) = float_lit 12 1"
  "max (float_lit 12 1) (float_lit 13 1) = float_lit 13 1"
  "max (float_lit 12 1) (float_lit 14 1) = float_lit 14 1"
  "max (float_lit 12 1) (float_lit 16 1) = float_lit 16 1"
  "max (float_lit 12 1) (float_lit 17 1) = float_lit 17 1"
  "max (float_lit 12 1) (float_lit 18 1) = float_lit 18 1"
  "max (float_lit 12 1) (float_lit 19 1) = float_lit 19 1"
  by (intro max_absorb2 float_lit_mono; simp)+

lemma clamp_low_2: "max (float_lit 12 1) 2 = 2"
proof -
  have "float_lit 12 1 \<le> float_lit 20 1"
    by (rule float_lit_mono) simp_all
  then show ?thesis
    unfolding float_lit_2 by (rule max_absorb2)
qed

lemma clamp_high:
  "min (float_lit 27 1) (float_lit 16 1) = float_lit 16 1"
  "min (float_lit 27 1) (float_lit 17 1) = float_lit 17 1"
  "min (float_lit 27 1) (float_lit 18 1) = float_lit 18 1"
  "min (float_lit 27 1) (float_lit 21 1) = float_lit 21 1"
  "min (float_lit 27 1) (float_lit 22 1) = float_lit 22 1"
  "min (float_lit 27 1) (float_lit 23 1) = float_lit 23 1"
  "min (float_lit 27 1) (float_lit 24 1) = float_lit 24 1"
  by (intro min_absorb2 float_lit_mono; simp)+

lemma clamp_high_2: "min (float_lit 27 1) 2 = 2"
proof -
  have "float_lit 20 1 \<le> float_lit 27 1"
    by (rule float_lit_mono) simp_all
  then show ?thesis
    unfolding float_lit_2 by (rule min_absorb2)
qed

lemma protein_range_table:
  "protein_range Low FatLoss = Inr (float_lit 14 1, float_lit 18 1)"
  "protein_range Low Maintenance = Inr (float_lit 12 1, float_lit 16 1)"
  "protein_range Low MuscleGain = Inr (float_lit 13 1, float_lit 17 1)"
  "protein_range Moderate FatLoss = Inr (float_lit 18 1, float_lit 22 1)"
  "protein_range Moderate Maintenance = Inr (float_lit 16 1, 2)"
  "protein_range Moderate MuscleGain = Inr (float_lit 17 1, float_lit 21 1)"
  "protein_range High FatLoss = Inr (2, float_lit 24 1)"
  "protein_range High Maintenance = Inr (float_lit 18 1, float_lit 22 1)"
  "protein_range High MuscleGain = Inr (float_lit 19 1, float_lit 23 1)"
  unfolding protein_range_def base_range_def goal_adjust_def clamp_range_def
  by (simp_all only: activity.case goal.case prod.case err_bind_Inr goal_sums two_decimals
      clamp_low clamp_low_2 clamp_high clamp_high_2)

section \<open>Facts about the whole function\<close>

lemma protein_range_cases:
  "\<exists>m n. protein_range a g = Inr (float_lit m 1, float_lit n 1) \<and>
          12 \<le> m \<and> m \<le> n \<and> n \<le> 24"
proof -
  have tbl:
    "protein_range Low FatLoss = Inr (float_lit 14 1, float_lit 18 1)"
    "protein_range Low Maintenance = Inr (float_lit 12 1, float_lit 16 1)"
    "protein_range Low MuscleGain = Inr (float_lit 13 1, float_lit 17 1)"
    "protein_range Moderate FatLoss = Inr (float_lit 18 1, float_lit 22 1)"
    "protein_range Moderate Maintenance = Inr (float_lit 16 1, float_lit 20 1)"
    "protein_range Moderate MuscleGain = Inr (float_lit 17 1, float_lit 21 1)"
    "protein_range High FatLoss = Inr (float_lit 20 1, float_lit 24 1)"
    "protein_range High Maintenance = Inr (float_lit 18 1, float_lit 22 1)"
    "protein_range High MuscleGain = Inr (float_lit 19 1, float_lit 23 1)"
    by (simp_all only: protein_range_table float_lit_2)
  have aux: "\<exists>m n. protein_range a g = Inr (float_lit m 1, float_lit n 1) \<and>
                12 \<le> m \<and> m \<le> n \<and> n \<le> 24"
    if "protein_range a g = Inr (float_lit m 1, float_lit n 1)"
      and "12 \<le> m" and "m \<le> n" and "n \<le> 24"
    for a g m n
    using that by blast
  show ?thesis
    by (cases a; cases g; hypsubst; rule aux, rule tbl, simp_all)
qed

lemma protein_range_ok:
  obtains lo hi where "protein_range a g = Inr (lo, hi)"
    and "float_lit 12 1 \<le> lo" and "lo \<le> hi" and "hi \<le> float_lit 27 1"
    and "0 \<le> lo" and "hi \<le> 4"
proof -
  from protein_range_cases [of a g] obtain m n where
    mn: "protein_range a g = Inr (float_lit m 1, float_lit n 1)"
      "12 \<le> m" "m \<le> n" "n \<le> 24"
    by blast
  have m0: "0 \<le> m" and n0: "0 \<le> n"
    using mn(2-4) by simp_all
  have "(of_int n :: rat) \<le> 24"
    using mn(4) by simp
  then have n4: "(of_int n :: rat) / 10 powi 1 \<le> 2 powi 2"
    by simp
  have nn: "(0::rat) \<le> of_int n / 10 powi 1"
    using n0 by simp
  show thesis
  proof (rule that [OF mn(1)])
    show "float_lit 12 1 \<le> float_lit m 1"
      using mn(2) by (intro float_lit_mono) simp_all
    show "float_lit m 1 \<le> float_lit n 1"
      by (rule float_lit_mono [OF m0 mn(3)])
    show "float_lit n 1 \<le> float_lit 27 1"
      using mn(4) by (intro float_lit_mono [OF n0]) simp
    show "0 \<le> float_lit m 1"
      by (rule float_lit_nonneg [OF m0])
    show "float_lit n 1 \<le> 4"
      using fl_le_pow2 [OF nn n4] by (simp add: float_lit_def)
  qed
qed

lemma weight_in_kg_ok:
  assumes "0 < weight req" and "weight req \<le> 1000"
  obtains wkg where "weight_in_kg req = Inr wkg" and "0 \<le> wkg" and "wkg \<le> 1024"
proof (cases "unit req = Kg")
  case True
  show thesis
    by (rule that [of "weight req"]) (use True assms in \<open>simp_all add: weight_in_kg_def\<close>)
next
  case False
  define c where "c = float_lit 45359237 8"
  have c0: "0 \<le> c"
    unfolding c_def by (rule float_lit_nonneg) simp
  have "fl (of_int 45359237 / 10 powi 8) \<le> 2 powi 0"
    by (rule fl_le_pow2) simp_all
  then have c1: "c \<le> 1"
    by (simp only: c_def float_lit_def power_int_0_right)
  have w0: "0 \<le> weight req"
    using assms(1) by simp
  have "weight req * c \<le> 1000 * 1"
    using assms(2) c1 c0 w0 by (intro mult_mono) simp_all
  then have "weight req * c \<le> 2 powi 10"
    by simp
  note m = fmul_ok [OF w0 c0 this]
  show thesis
  proof (rule that [of "fl (weight req * c)"])
    show "weight_in_kg req = Inr (fl (weight req * c))"
      using False m(1) by (simp add: weight_in_kg_def c_def)
    show "0 \<le> fl (weight req * c)"
      using m(2) by simp
    show "fl (weight req * c) \<le> 1024"
      using m(3) by simp
  qed
qed

lemma py_round_ndigits_ok:
  assumes "0 \<le> x" and "x \<le> 1024"
  shows "\<exists>r. py_round_ndigits x 2 = Inr r"
proof -
  have "0 \<le> x * 100" and "x * 100 \<le> of_int 102400"
    using assms by simp_all
  then have "0 \<le> rhe (x * 100)" and "rhe (x * 100) \<le> 102400"
    using rhe_mono [of "x * 100" "of_int 102400"] rhe_nonneg [of "x * 100"]
    by (simp_all only: rhe_of_int)
  then have "(0::rat) \<le> of_int (rhe (x * 100))" and "(of_int (rhe (x * 100)) :: rat) \<le> 102400"
    by simp_all
  then have "(0::rat) \<le> of_int (rhe (x * 100)) / 100"
    and "(of_int (rhe (x * 100)) :: rat) / 100 \<le> 2 powi 10"
    by simp_all
  from to_double_le_pow2(1) [OF this] show ?thesis
    by (simp add: py_round_ndigits_def)
qed

lemma calculate_protein_Inr_D:
  assumes "calculate_protein req = Inr resp"
  obtains wkg wkg2 lo hi dmin dmax t plans where
    "weight_in_kg req = Inr wkg"
    and "protein_range (activity req) (goal req) = Inr (lo, hi)"
    and "daily_grams lo hi wkg = Inr (dmin, dmax, t)"
    and "suggestions_for (p_bump_of (goal req)) t archetypes = Inr plans"
    and "py_round_ndigits wkg 2 = Inr wkg2"
    and "resp = \<lparr>weight_kg = wkg2, grams_per_kg_range = (lo, hi),
                  daily_grams_min = dmin, daily_grams_max = dmax, daily_grams_target = t,
                  rationale = rationale_text lo hi, suggestions = plans\<rparr>"
  using assms
  by (auto simp: calculate_protein_def err_bind_eq_Inr_iff)

lemma calculate_protein_valid:
  assumes "valid_request req"
  obtains wkg wkg2 lo hi dmin dmax t plans where
    "weight_in_kg req = Inr wkg" and "0 \<le> wkg" and "wkg \<le> 1024"
    and "protein_range (activity req) (goal req) = Inr (lo, hi)"
    and "daily_grams lo hi wkg = Inr (dmin, dmax, t)" and "0 \<le> t" and "t \<le> 4096"
    and "suggestions_for (p_bump_of (goal req)) t archetypes = Inr plans"
    and "length plans = 4"
    and "\<forall>plan \<in> set plans. \<exists>p c f.
           split_percent (macros plan) = [(''protein'', p), (''carbs'', c), (''fats'', f)] \<and>
           protein_g (macros plan) = py_round (fl (of_int t / 5)) * 5 \<and>
           carbs_g (macros plan) = py_round (fl (raw_carbs_of p c t / 5)) * 5 \<and>
           fats_g (macros plan) = py_round (fl (raw_fats_of p f t / 5)) * 5 \<and>
           calories (macros plan) = py_round (total_kcal_of p t)"
    and "calculate_protein req =
           Inr \<lparr>weight_kg = wkg2, grams_per_kg_range = (lo, hi),
                daily_grams_min = dmin, daily_grams_max = dmax, daily_grams_target = t,
                rationale = rationale_text lo hi, suggestions = plans\<rparr>"
proof -
  from assms have w: "0 < weight req" "weight req \<le> 1000"
    by (simp_all add: valid_request_def)
  from weight_in_kg_ok [OF w] obtain wkg where
    wkg: "weight_in_kg req = Inr wkg" "0 \<le> wkg" "wkg \<le> 1024"
    by blast
  from protein_range_ok [of "activity req" "goal req"] obtain lo hi where
    rng: "protein_range (activity req) (goal req) = Inr (lo, hi)"
      "lo \<le> hi" "0 \<le> lo" "hi \<le> 4"
    by blast
  note dg = daily_grams_total [OF rng(3,2,4) wkg(2,3)]
  define t where "t = py_round (fl (fl (fl (lo + hi) / 2) * wkg))"
  have t: "0 \<le> t" "t \<le> 4096"
    using dg(2,3) by (simp_all add: t_def)
  from suggestions_for_total [OF t archetypes_within_bounds, of "goal req"]
  obtain plans where
    plans: "suggestions_for (p_bump_of (goal req)) t archetypes = Inr plans"
      "length plans = length archetypes"
      "\<forall>plan \<in> set plans. \<exists>p c f.
         split_percent (macros plan) = [(''protein'', p), (''carbs'', c), (''fats'', f)] \<and>
         protein_g (macros plan) = py_round (fl (of_int t / 5)) * 5 \<and>
         carbs_g (macros plan) = py_round (fl (raw_carbs_of p c t / 5)) * 5 \<and>
         fats_g (macros plan) = py_round (fl (raw_fats_of p f t / 5)) * 5 \<and>
         calories (macros plan) = py_round (total_kcal_of p t)"
    by (elim exE conjE) (rule that)
  from py_round_ndigits_ok [OF wkg(2,3)] obtain wkg2 where
    wkg2: "py_round_ndigits wkg 2 = Inr wkg2"
    by blast
  have d: "daily_grams lo hi wkg = Inr (py_round (fl (lo * wkg)), py_round (fl (hi * wkg)), t)"
    using dg(1) by (simp add: t_def)
  show thesis
  proof (rule that [OF wkg rng(1) d t plans(1) _ plans(3)])
    show "length plans = 4"
      using plans(2) by (simp add: archetypes_def)
    show "calculate_protein req =
            Inr \<lparr>weight_kg = wkg2, grams_per_kg_range = (lo, hi),
                 daily_grams_min = py_round (fl (lo * wkg)),
                 daily_grams_max = py_round (fl (hi * wkg)), daily_grams_target = t,
                 rationale = rationale_text lo hi, suggestions = plans\<rparr>"
      by (simp add: calculate_protein_def wkg(1) rng(1) d plans(1) wkg2)
  qed
qed

section \<open>Evaluations at concrete numbers\<close>

lemma midpoint_16_2: "err_bind (fadd (float_lit 16 1) 2) (\<lambda>s. fdiv s 2) = Inr (float_lit 18 1)"
  by code_simp

lemma products_80:
  "fmul (float_lit 16 1) 80 = Inr 128"
  "fmul 2 80 = Inr 160"
  "fmul (float_lit 18 1) 80 = Inr 144"
  by code_simp+

lemma products_79:
  "fmul (float_lit 16 1) 79 = Inr (float_lit 1264 1)"
  "fmul 2 79 = Inr 158"
  "fmul (float_lit 18 1) 79 = Inr (float_lit 1422 1 + 2 powi (- 45))"
  by code_simp+

lemma py_round_values:
  "py_round 128 = 128" "py_round 160 = 160" "py_round 144 = 144"
  "py_round (float_lit 1264 1) = 126" "py_round 158 = 158"
  "py_round (float_lit 1422 1 + 2 powi (- 45)) = 142"
  by code_simp+

lemma daily_grams_bind:
  "daily_grams lo hi w =
     err_bind (fmul lo w) (\<lambda>a.
     err_bind (fmul hi w) (\<lambda>b.
     err_bind (err_bind (fadd lo hi) (\<lambda>s. fdiv s 2)) (\<lambda>mid.
     err_bind (fmul mid w) (\<lambda>tg.
       Inr (py_round a, py_round b, py_round tg)))))"
  by (cases "fmul lo w"; cases "fmul hi w"; cases "fadd lo hi")
    (simp_all add: daily_grams_def)

lemma daily_grams_80: "daily_grams (float_lit 16 1) 2 80 = Inr (128, 160, 144)"
  by (simp only: daily_grams_bind midpoint_16_2 products_80 py_round_values err_bind_Inr)

lemma daily_grams_79: "daily_grams (float_lit 16 1) 2 79 = Inr (126, 158, 142)"
  by (simp only: daily_grams_bind midpoint_16_2 products_79 py_round_values err_bind_Inr)

lemma round5_142: "py_round (fl (of_int 142 / 5)) * 5 = 140"
  by code_simp

lemma repr_values:
  "float_repr (float_lit 12 1) = ''1.2''"
  "float_repr (float_lit 13 1) = ''1.3''"
  "float_repr (float_lit 14 1) = ''1.4''"
  "float_repr (float_lit 16 1) = ''1.6''"
  "float_repr (float_lit 17 1) = ''1.7''"
  "float_repr (float_lit 18 1) = ''1.8''"
  "float_repr (float_lit 19 1) = ''1.9''"
  "float_repr 2 = ''2.0''"
  "float_repr (float_lit 21 1) = ''2.1''"
  "float_repr (float_lit 22 1) = ''2.2''"
  "float_repr (float_lit 23 1) = ''2.3''"
  "float_repr (float_lit 24 1) = ''2.4''"
  by code_simp+

lemma two_decimal_values:
  "two_decimal_text (float_lit 16 1) = ''1.60''"
  "two_decimal_text 2 = ''2.00''"
  by code_simp+

lemma is_double_values: "is_double (float_lit 16 1)" "is_double 2"
  by code_simp+

lemma range_repr_one_decimal:
  assumes "protein_range a g = Inr (lo, hi)"
  shows "one_decimal (float_repr lo)" and "one_decimal (float_repr hi)"
proof -
  have od: "one_decimal ''1.2''" "one_decimal ''1.3''" "one_decimal ''1.4''" "one_decimal ''1.6''"
    "one_decimal ''1.7''" "one_decimal ''1.8''" "one_decimal ''1.9''" "one_decimal ''2.0''"
    "one_decimal ''2.1''" "one_decimal ''2.2''" "one_decimal ''2.3''" "one_decimal ''2.4''"
    by (simp_all add: one_decimal_def)
  have "one_decimal (float_repr lo) \<and> one_decimal (float_repr hi)"
    using assms
    by (cases a; cases g; hypsubst)
      (simp_all only: protein_range_table sum.inject prod.inject, (elim conjE, hypsubst,
        simp only: repr_values od simp_thms)+)
  then show "one_decimal (float_repr lo)" and "one_decimal (float_repr hi)"
    by simp_all
qed

section \<open>Facts about the construction of a request\<close>

lemma check_weight_eq_None_iff: "check_weight v = None \<longleftrightarrow> v \<le> 0 \<or> 1000 < v"
  by (auto simp: check_weight_def validate_weight_def)

lemma check_weight_Some: "check_weight v \<noteq> None \<Longrightarrow> the (check_weight v) = v"
  by (auto simp: check_weight_def validate_weight_def split: if_splits)

lemma ProteinRequest_init_Inr_D:
  assumes "ProteinRequest_init raw = Inr req"
  shows "field_errors raw = []" and "weight req = raw_weight raw" and "valid_request req"
proof -
  from assms show fe: "field_errors raw = []"
    by (simp add: ProteinRequest_init_def split: if_splits)
  then have cw: "check_weight (raw_weight raw) \<noteq> None" and ca: "check_age (raw_age raw) \<noteq> None"
    by (auto simp: field_errors_def split: if_splits)
  from assms fe have req: "weight req = the (check_weight (raw_weight raw))" "age req = raw_age raw"
    by (auto simp: ProteinRequest_init_def)
  with cw show w: "weight req = raw_weight raw"
    by (simp add: check_weight_Some)
  from cw have "0 < raw_weight raw" "raw_weight raw \<le> 1000"
    by (simp_all add: check_weight_eq_None_iff not_le not_less)
  moreover from ca have "case raw_age raw of None \<Rightarrow> True | Some n \<Rightarrow> 10 \<le> n \<and> n \<le> 100"
    by (auto simp: check_age_def split: option.splits if_splits)
  ultimately show "valid_request req"
    by (simp add: valid_request_def w req(2))
qed

lemma field_errors_weight_only:
  assumes "raw_unit raw \<in> {None, Some ''kg'', Some ''lb''}"
    and "raw_activity raw \<in> {None, Some ''low'', Some ''moderate'', Some ''high''}"
    and "raw_goal raw \<in> {None, Some ''fat_loss'', Some ''maintenance'', Some ''muscle_gain''}"
    and "raw_sex raw \<in> {None, Some ''male'', Some ''female'', Some ''other''}"
    and "raw_age raw = None \<or> (\<exists>n. raw_age raw = Some n \<and> 10 \<le> n \<and> n \<le> 100)"
  shows "field_errors raw = (if check_weight (raw_weight raw) = None then [''weight''] else [])"
proof -
  from assms(1) have u: "(case raw_unit raw of None \<Rightarrow> []
        | Some s \<Rightarrow> if parse_unit s = None then [''unit''] else []) = []"
    by (auto simp: parse_unit_def)
  from assms(2) have a: "(case raw_activity raw of None \<Rightarrow> []
        | Some s \<Rightarrow> if parse_activity s = None then [''activity''] else []) = []"
    by (auto simp: parse_activity_def)
  from assms(3) have g: "(case raw_goal raw of None \<Rightarrow> []
        | Some s \<Rightarrow> if parse_goal s = None then [''goal''] else []) = []"
    by (auto simp: parse_goal_def)
  from assms(4) have s: "(case raw_sex raw of None \<Rightarrow> []
        | Some s \<Rightarrow> if parse_sex s = None then [''sex''] else []) = []"
    by (auto simp: parse_sex_def)
  from assms(5) have ag: "check_age (raw_age raw) \<noteq> None"
    by (auto simp: check_age_def)
  show ?thesis
    unfolding field_errors_def u a g s using ag by simp
qed

section \<open>The properties\<close>

subsection \<open>The daily grams\<close>

text \<open>
  Claim C1. For a range \<open>min_gkg \<le> max_gkg\<close> of binary64 numbers that are not negative
  and a weight in kilograms that is not negative, whenever the three amounts are computed
  they are \<open>daily_min = round(min_gkg \<times> weight_kg)\<close>, \<open>daily_max = round(max_gkg \<times> weight_kg)\<close>
  and \<open>target = round(((min_gkg + max_gkg) / 2) \<times> weight_kg)\<close>, each product rounded to
  binary64 and then to the nearest integer, and \<open>daily_min \<le> target \<le> daily_max\<close>. They are
  computed (no overflow) whenever \<open>max_gkg \<le> 4\<close> and \<open>weight_kg \<le> 1024\<close>, which covers every
  range in \<open>[1.2, 2.7]\<close> and every weight up to 1000.
\<close>

theorem daily_min_le_target_le_daily_max:
  assumes "is_double min_gkg" and "is_double max_gkg"
    and "0 \<le> min_gkg" and "min_gkg \<le> max_gkg" and "0 \<le> wkg"
  shows "(\<forall>daily_min daily_max target.
            daily_grams min_gkg max_gkg wkg = Inr (daily_min, daily_max, target) \<longrightarrow>
              daily_min = py_round (fl (min_gkg * wkg)) \<and>
              daily_max = py_round (fl (max_gkg * wkg)) \<and>
              target = py_round (fl (fl (fl (min_gkg + max_gkg) / 2) * wkg)) \<and>
              daily_min \<le> target \<and> target \<le> daily_max) \<and>
         (max_gkg \<le> 4 \<and> wkg \<le> 1024 \<longrightarrow>
            (\<exists>daily_min daily_max target.
               daily_grams min_gkg max_gkg wkg = Inr (daily_min, daily_max, target)))"
proof (intro conjI allI impI)
  fix daily_min daily_max target
  assume r: "daily_grams min_gkg max_gkg wkg = Inr (daily_min, daily_max, target)"
  note d = daily_grams_Inr_D [OF r]
  show "daily_min = py_round (fl (min_gkg * wkg))"
    and "daily_max = py_round (fl (max_gkg * wkg))"
    and "target = py_round (fl (fl (fl (min_gkg + max_gkg) / 2) * wkg))"
    by (rule d)+
  from assms(1,2) have e: "fl min_gkg = min_gkg" "fl max_gkg = max_gkg"
    by (simp_all add: is_double_def)
  from daily_grams_ordered [OF e assms(3-5)]
  show "daily_min \<le> target" and "target \<le> daily_max"
    by (simp_all add: d)
next
  assume "max_gkg \<le> 4 \<and> wkg \<le> 1024"
  then have "max_gkg \<le> 4" and "wkg \<le> 1024"
    by simp_all
  from daily_grams_total(1) [OF assms(3,4) this(1) assms(5) this(2)]
  show "\<exists>daily_min daily_max target.
          daily_grams min_gkg max_gkg wkg = Inr (daily_min, daily_max, target)"
    by blast
qed

theorem daily_min_le_target_le_daily_max_witness:
  "is_double (float_lit 16 1) \<and> is_double 2 \<and> (0::rat) \<le> float_lit 16 1 \<and>
   float_lit 16 1 \<le> 2 \<and> (0::rat) \<le> 80 \<and>
   daily_grams (float_lit 16 1) 2 80 = Inr (128, 160, 144) \<and>
   (128::int) \<le> 144 \<and> (144::int) \<le> 160"
proof -
  have h3: "0 \<le> float_lit 16 1"
    by (rule float_lit_nonneg) simp
  have "float_lit 16 1 \<le> float_lit 20 1"
    by (rule float_lit_mono) simp_all
  then have h4: "float_lit 16 1 \<le> 2"
    by (simp only: float_lit_2)
  have h5: "(0::rat) \<le> 80"
    by simp
  from daily_min_le_target_le_daily_max [OF is_double_values h3 h4 h5]
  have "(128::int) \<le> 144 \<and> (144::int) \<le> 160"
    using daily_grams_80 by blast
  with is_double_values h3 h4 h5 daily_grams_80 show ?thesis
    by blast
qed

subsection \<open>The range in grams per kilogram\<close>

text \<open>
  Claim C2. For each of the nine combinations of activity and goal the range calculator
  returns a pair \<open>(min_gkg, max_gkg)\<close> with \<open>min_gkg = max(1.2, round(base_min, 2))\<close> and
  \<open>max_gkg = min(2.7, round(base_max, 2))\<close>, where \<open>(base_min, base_max)\<close> is the base range of
  the activity after the additive goal adjustment (so the clamp comes after the rounding);
  \<open>min_gkg \<le> max_gkg\<close>, and both lie between the floats \<open>1.2\<close> and \<open>2.7\<close>.
\<close>

theorem range_within_bounds:
  "\<exists>base_min base_max r_min r_max min_gkg max_gkg.
      goal_adjust g (base_range a) = Inr (base_min, base_max) \<and>
      py_round_ndigits base_min 2 = Inr r_min \<and>
      py_round_ndigits base_max 2 = Inr r_max \<and>
      min_gkg = max (float_lit 12 1) r_min \<and>
      max_gkg = min (float_lit 27 1) r_max \<and>
      protein_range a g = Inr (min_gkg, max_gkg) \<and>
      float_lit 12 1 \<le> min_gkg \<and> min_gkg \<le> max_gkg \<and> max_gkg \<le> float_lit 27 1"
proof -
  from protein_range_ok [of a g] obtain lo hi where
    r: "protein_range a g = Inr (lo, hi)"
      "float_lit 12 1 \<le> lo" "lo \<le> hi" "hi \<le> float_lit 27 1"
    by blast
  from r(1) obtain base_min base_max r_min r_max where
    s: "goal_adjust g (base_range a) = Inr (base_min, base_max)"
      "py_round_ndigits base_min 2 = Inr r_min"
      "py_round_ndigits base_max 2 = Inr r_max"
      "lo = max (float_lit 12 1) r_min" "hi = min (float_lit 27 1) r_max"
    by (auto simp: protein_range_def clamp_range_def err_bind_eq_Inr_iff)
  from r s show ?thesis
    by blast
qed

subsection \<open>The percent split\<close>

text \<open>
  Claim C3. For every goal and every archetype of the four-row table, the adjusted split is
  \<open>(min 45 (p + bump), max 30 (c - bump), f')\<close> with \<open>bump\<close> 5 for fat loss and 0 otherwise,
  where \<open>f'\<close> is \<open>f\<close> when the three already sum to 100 and \<open>max 20 (f + (100 - sum))\<close>
  when they do not; and the adjusted split sums to 100, except possibly when the goal is fat
  loss and the carbs floor and the fat floor bind together.
\<close>

theorem split_sums_to_100_unless_both_floors_bind:
  "\<forall>g. \<forall>pcf \<in> set base_splits.
     (case pcf of (p, c, f) \<Rightarrow>
        let bump = (if g = FatLoss then 5 else 0);
            s = min 45 (p + bump) + max 30 (c - bump) + f
        in p_bump_of g = bump \<and>
           adjust_split (p_bump_of g) pcf =
             (min 45 (p + bump), max 30 (c - bump),
              if s \<noteq> 100 then max 20 (f + (100 - s)) else f)) \<and>
     (split_sum (adjust_split (p_bump_of g) pcf) = 100 \<or>
      (g = FatLoss \<and> carbs_floor_binds (p_bump_of g) pcf \<and> fat_floor_binds (p_bump_of g) pcf))"
proof (intro allI ballI)
  fix g pcf
  assume "pcf \<in> set base_splits"
  then consider "pcf = (30, 45, 25)" | "pcf = (35, 35, 30)" | "pcf = (25, 50, 25)"
    | "pcf = (20, 60, 20)"
    by (auto simp: base_splits_eq)
  then show "(case pcf of (p, c, f) \<Rightarrow>
        let bump = (if g = FatLoss then 5 else 0);
            s = min 45 (p + bump) + max 30 (c - bump) + f
        in p_bump_of g = bump \<and>
           adjust_split (p_bump_of g) pcf =
             (min 45 (p + bump), max 30 (c - bump),
              if s \<noteq> 100 then max 20 (f + (100 - s)) else f)) \<and>
     (split_sum (adjust_split (p_bump_of g) pcf) = 100 \<or>
      (g = FatLoss \<and> carbs_floor_binds (p_bump_of g) pcf \<and> fat_floor_binds (p_bump_of g) pcf))"
    by cases (cases g; simp add: p_bump_of_simps adjust_split_table split_sum_def)+
qed

theorem split_sums_to_100_unless_both_floors_bind_witness:
  "(20, 60, 20) \<in> set base_splits \<and>
   adjust_split (p_bump_of FatLoss) (20, 60, 20) = (25, 55, 20) \<and>
   split_sum (adjust_split (p_bump_of FatLoss) (20, 60, 20)) = 100"
proof -
  have m: "(20, 60, 20) \<in> set base_splits"
    by (simp add: base_splits_eq)
  from split_sums_to_100_unless_both_floors_bind m
  have "split_sum (adjust_split (p_bump_of FatLoss) (20, 60, 20)) = 100 \<or>
        (carbs_floor_binds (p_bump_of FatLoss) (20, 60, 20) \<and>
         fat_floor_binds (p_bump_of FatLoss) (20, 60, 20))"
    by blast
  moreover have "\<not> fat_floor_binds (p_bump_of FatLoss) (20, 60, 20)"
    by (simp add: fat_floor_binds_def p_bump_of_simps)
  ultimately have "split_sum (adjust_split (p_bump_of FatLoss) (20, 60, 20)) = 100"
    by blast
  with m show ?thesis
    by (simp add: p_bump_of_simps adjust_split_table)
qed

text \<open>
  Claim C9. For every goal and every archetype of the table the adjusted split sums to
  exactly 100. The normalisation branch is never entered (the sum before it is already 100),
  so the fat floor never binds, and the two floors never bind together.
\<close>

theorem split_sum_always_100:
  "\<forall>g. \<forall>pcf \<in> set base_splits.
     split_sum (adjust_split (p_bump_of g) pcf) = 100 \<and>
     (case pcf of (p, c, f) \<Rightarrow>
        min 45 (p + p_bump_of g) + max 30 (c - p_bump_of g) + f = 100) \<and>
     \<not> fat_floor_binds (p_bump_of g) pcf \<and>
     \<not> (carbs_floor_binds (p_bump_of g) pcf \<and> fat_floor_binds (p_bump_of g) pcf)"
proof (intro allI ballI)
  fix g pcf
  assume "pcf \<in> set base_splits"
  then consider "pcf = (30, 45, 25)" | "pcf = (35, 35, 30)" | "pcf = (25, 50, 25)"
    | "pcf = (20, 60, 20)"
    by (auto simp: base_splits_eq)
  then show "split_sum (adjust_split (p_bump_of g) pcf) = 100 \<and>
     (case pcf of (p, c, f) \<Rightarrow>
        min 45 (p + p_bump_of g) + max 30 (c - p_bump_of g) + f = 100) \<and>
     \<not> fat_floor_binds (p_bump_of g) pcf \<and>
     \<not> (carbs_floor_binds (p_bump_of g) pcf \<and> fat_floor_binds (p_bump_of g) pcf)"
    by cases
      (cases g; simp add: p_bump_of_simps adjust_split_table split_sum_def fat_floor_binds_def)+
qed

theorem split_sum_always_100_witness:
  "(35, 35, 30) \<in> set base_splits \<and>
   split_sum (adjust_split (p_bump_of FatLoss) (35, 35, 30)) = 100 \<and>
   carbs_floor_binds (p_bump_of FatLoss) (35, 35, 30) \<and>
   \<not> fat_floor_binds (p_bump_of FatLoss) (35, 35, 30)"
proof -
  have m: "(35, 35, 30) \<in> set base_splits"
    by (simp add: base_splits_eq)
  from split_sum_always_100 m
  have "split_sum (adjust_split (p_bump_of FatLoss) (35, 35, 30)) = 100 \<and>
        \<not> fat_floor_binds (p_bump_of FatLoss) (35, 35, 30)"
    by blast
  with m show ?thesis
    by (simp add: carbs_floor_binds_def p_bump_of_simps)
qed

subsection \<open>The rationale\<close>

text \<open>
  Claim C4, as the specification states it, asks the rationale to print the two bounds with
  exactly two decimals. The source embeds them with \<^verbatim>\<open>f"{min_gkg}-{max_gkg}"\<close>, without a
  format, so they are printed as \<^verbatim>\<open>repr\<close> prints a float. For the request of 80 kg,
  moderate activity and maintenance the rationale reads \<open>1.6-2.0\<close>, and not \<open>1.60-2.00\<close>.
\<close>

theorem rationale_not_two_decimals:
  "map_sum id rationale (calculate_protein example_request) =
     Inr (''Based on your activity and goal, a range of 1.6-2.0 g/kg is appropriate. ''
          @ ''Using your body weight, that translates to the amounts shown. ''
          @ ''Hitting the middle of the range is a practical daily target.'') \<and>
   map_sum id rationale_claimed (calculate_protein example_request) =
     Inr (''Based on your activity and goal, a range of 1.60-2.00 g/kg is appropriate. ''
          @ ''Using your body weight, that translates to the amounts shown. ''
          @ ''Hitting the middle of the range is a practical daily target.'') \<and>
   map_sum id rationale (calculate_protein example_request)
     \<noteq> map_sum id rationale_claimed (calculate_protein example_request)"
proof -
  have v: "valid_request example_request"
    by (simp add: valid_request_def example_request_def)
  from v obtain wkg wkg2 lo hi dmin dmax t plans where
    w: "weight_in_kg example_request = Inr wkg" and w0: "0 \<le> wkg" and w1: "wkg \<le> 1024"
    and r: "protein_range (activity example_request) (goal example_request) = Inr (lo, hi)"
    and d: "daily_grams lo hi wkg = Inr (dmin, dmax, t)" and t0: "0 \<le> t" and t1: "t \<le> 4096"
    and s: "suggestions_for (p_bump_of (goal example_request)) t archetypes = Inr plans"
    and n: "length plans = 4"
    and p: "\<forall>plan \<in> set plans. \<exists>p c f.
           split_percent (macros plan) = [(''protein'', p), (''carbs'', c), (''fats'', f)] \<and>
           protein_g (macros plan) = py_round (fl (of_int t / 5)) * 5 \<and>
           carbs_g (macros plan) = py_round (fl (raw_carbs_of p c t / 5)) * 5 \<and>
           fats_g (macros plan) = py_round (fl (raw_fats_of p f t / 5)) * 5 \<and>
           calories (macros plan) = py_round (total_kcal_of p t)"
    and c: "calculate_protein example_request =
           Inr \<lparr>weight_kg = wkg2, grams_per_kg_range = (lo, hi),
                daily_grams_min = dmin, daily_grams_max = dmax, daily_grams_target = t,
                rationale = rationale_text lo hi, suggestions = plans\<rparr>"
    by (rule calculate_protein_valid)
  from r have lh: "lo = float_lit 16 1" "hi = 2"
    by (simp_all add: example_request_def protein_range_table)
  have a: "map_sum id rationale (calculate_protein example_request) =
     Inr (''Based on your activity and goal, a range of 1.6-2.0 g/kg is appropriate. ''
          @ ''Using your body weight, that translates to the amounts shown. ''
          @ ''Hitting the middle of the range is a practical daily target.'')"
    unfolding c lh by (simp add: rationale_text_def repr_values)
  have b: "map_sum id rationale_claimed (calculate_protein example_request) =
     Inr (''Based on your activity and goal, a range of 1.60-2.00 g/kg is appropriate. ''
          @ ''Using your body weight, that translates to the amounts shown. ''
          @ ''Hitting the middle of the range is a practical daily target.'')"
    unfolding c lh
    by (simp add: rationale_claimed_def rationale_two_decimals_def two_decimal_values)
  show ?thesis
    unfolding a b by simp
qed

text \<open>
  Claim C4, amended. For every valid request the rationale is the fixed template with
  \<open>min_gkg\<close> and \<open>max_gkg\<close> embedded as \<^verbatim>\<open>repr\<close> prints them (the shortest decimal that
  reads back as the float), and for each of the ranges the function can compute that is
  exactly one decimal: 1.6 appears as \<open>1.6\<close> and 2.0 as \<open>2.0\<close>.
\<close>

theorem rationale_embeds_repr:
  assumes "valid_request req"
  shows "\<exists>resp min_gkg max_gkg.
           calculate_protein req = Inr resp \<and>
           grams_per_kg_range resp = (min_gkg, max_gkg) \<and>
           rationale resp =
             ''Based on your activity and goal, a range of ''
             @ float_repr min_gkg @ ''-'' @ float_repr max_gkg @ '' g/kg is appropriate. ''
             @ ''Using your body weight, that translates to the amounts shown. ''
             @ ''Hitting the middle of the range is a practical daily target.'' \<and>
           one_decimal (float_repr min_gkg) \<and> one_decimal (float_repr max_gkg)"
proof -
  from assms obtain wkg wkg2 lo hi dmin dmax t plans where
    w: "weight_in_kg req = Inr wkg" and w0: "0 \<le> wkg" and w1: "wkg \<le> 1024"
    and r: "protein_range (activity req) (goal req) = Inr (lo, hi)"
    and d: "daily_grams lo hi wkg = Inr (dmin, dmax, t)" and t0: "0 \<le> t" and t1: "t \<le> 4096"
    and s: "suggestions_for (p_bump_of (goal req)) t archetypes = Inr plans"
    and n: "length plans = 4"
    and p: "\<forall>plan \<in> set plans. \<exists>p c f.
           split_percent (macros plan) = [(''protein'', p), (''carbs'', c), (''fats'', f)] \<and>
           protein_g (macros plan) = py_round (fl (of_int t / 5)) * 5 \<and>
           carbs_g (macros plan) = py_round (fl (raw_carbs_of p c t / 5)) * 5 \<and>
           fats_g (macros plan) = py_round (fl (raw_fats_of p f t / 5)) * 5 \<and>
           calories (macros plan) = py_round (total_kcal_of p t)"
    and c: "calculate_protein req =
           Inr \<lparr>weight_kg = wkg2, grams_per_kg_range = (lo, hi),
                daily_grams_min = dmin, daily_grams_max = dmax, daily_grams_target = t,
                rationale = rationale_text lo hi, suggestions = plans\<rparr>"
    by (rule calculate_protein_valid)
  note od = range_repr_one_decimal [OF r]
  show ?thesis
    unfolding c using od by (simp add: rationale_text_def)
qed

theorem rationale_embeds_repr_witness:
  "valid_request example_request \<and>
   (\<exists>resp. calculate_protein example_request = Inr resp \<and>
      grams_per_kg_range resp = (float_lit 16 1, 2) \<and>
      rationale resp =
        ''Based on your activity and goal, a range of 1.6-2.0 g/kg is appropriate. ''
        @ ''Using your body weight, that translates to the amounts shown. ''
        @ ''Hitting the middle of the range is a practical daily target.'')"
proof -
  have v: "valid_request example_request"
    by (simp add: valid_request_def example_request_def)
  from rationale_embeds_repr [OF v] obtain resp min_gkg max_gkg where
    c: "calculate_protein example_request = Inr resp"
    and g: "grams_per_kg_range resp = (min_gkg, max_gkg)"
    and t: "rationale resp =
             ''Based on your activity and goal, a range of ''
             @ float_repr min_gkg @ ''-'' @ float_repr max_gkg @ '' g/kg is appropriate. ''
             @ ''Using your body weight, that translates to the amounts shown. ''
             @ ''Hitting the middle of the range is a practical daily target.''"
    by (elim exE conjE) (rule that)
  from v obtain wkg wkg2 lo hi dmin dmax t plans where
    w: "weight_in_kg example_request = Inr wkg" and w0: "0 \<le> wkg" and w1: "wkg \<le> 1024"
    and r: "protein_range (activity example_request) (goal example_request) = Inr (lo, hi)"
    and d: "daily_grams lo hi wkg = Inr (dmin, dmax, t)" and t0: "0 \<le> t" and t1: "t \<le> 4096"
    and s: "suggestions_for (p_bump_of (goal example_request)) t archetypes = Inr plans"
    and n: "length plans = 4"
    and p: "\<forall>plan \<in> set plans. \<exists>p c f.
           split_percent (macros plan) = [(''protein'', p), (''carbs'', c), (''fats'', f)] \<and>
           protein_g (macros plan) = py_round (fl (of_int t / 5)) * 5 \<and>
           carbs_g (macros plan) = py_round (fl (raw_carbs_of p c t / 5)) * 5 \<and>
           fats_g (macros plan) = py_round (fl (raw_fats_of p f t / 5)) * 5 \<and>
           calories (macros plan) = py_round (total_kcal_of p t)"
    and c': "calculate_protein example_request =
           Inr \<lparr>weight_kg = wkg2, grams_per_kg_range = (lo, hi),
                daily_grams_min = dmin, daily_grams_max = dmax, daily_grams_target = t,
                rationale = rationale_text lo hi, suggestions = plans\<rparr>"
    by (rule calculate_protein_valid)
  from c' [unfolded c] have g': "grams_per_kg_range resp = (lo, hi)"
    by auto
  from r have "lo = float_lit 16 1" "hi = 2"
    by (simp_all add: example_request_def protein_range_table)
  with g g' have m: "min_gkg = float_lit 16 1" "max_gkg = 2"
    by simp_all
  from t have "rationale resp =
        ''Based on your activity and goal, a range of 1.6-2.0 g/kg is appropriate. ''
        @ ''Using your body weight, that translates to the amounts shown. ''
        @ ''Hitting the middle of the range is a practical daily target.''"
    unfolding m by (simp add: repr_values)
  with v c g m show ?thesis
    by simp
qed

subsection \<open>The example of the specification\<close>

text \<open>
  Claim C5. For weight 80, unit kg, moderate activity and maintenance the function returns
  \<open>min_gkg = 1.6\<close>, \<open>max_gkg = 2.0\<close>, \<open>daily_min = 128\<close>, \<open>daily_max = 160\<close> and
  \<open>target = 144\<close>.
\<close>

theorem example_80kg_moderate_maintenance:
  "\<exists>resp. calculate_protein
             \<lparr>weight = 80, unit = Kg, activity = Moderate, goal = Maintenance,
              age = None, sex = None\<rparr> = Inr resp \<and>
          grams_per_kg_range resp = (float_lit 16 1, 2) \<and>
          daily_grams_min resp = 128 \<and> daily_grams_max resp = 160 \<and>
          daily_grams_target resp = 144"
proof -
  have v: "valid_request example_request"
    by (simp add: valid_request_def example_request_def)
  from v obtain wkg wkg2 lo hi dmin dmax t plans where
    w: "weight_in_kg example_request = Inr wkg" and w0: "0 \<le> wkg" and w1: "wkg \<le> 1024"
    and r: "protein_range (activity example_request) (goal example_request) = Inr (lo, hi)"
    and d: "daily_grams lo hi wkg = Inr (dmin, dmax, t)" and t0: "0 \<le> t" and t1: "t \<le> 4096"
    and s: "suggestions_for (p_bump_of (goal example_request)) t archetypes = Inr plans"
    and n: "length plans = 4"
    and p: "\<forall>plan \<in> set plans. \<exists>p c f.
           split_percent (macros plan) = [(''protein'', p), (''carbs'', c), (''fats'', f)] \<and>
           protein_g (macros plan) = py_round (fl (of_int t / 5)) * 5 \<and>
           carbs_g (macros plan) = py_round (fl (raw_carbs_of p c t / 5)) * 5 \<and>
           fats_g (macros plan) = py_round (fl (raw_fats_of p f t / 5)) * 5 \<and>
           calories (macros plan) = py_round (total_kcal_of p t)"
    and c: "calculate_protein example_request =
           Inr \<lparr>weight_kg = wkg2, grams_per_kg_range = (lo, hi),
                daily_grams_min = dmin, daily_grams_max = dmax, daily_grams_target = t,
                rationale = rationale_text lo hi, suggestions = plans\<rparr>"
    by (rule calculate_protein_valid)
  from w have wkg: "wkg = 80"
    by (simp add: weight_in_kg_def example_request_def)
  from r have lh: "lo = float_lit 16 1" "hi = 2"
    by (simp_all add: example_request_def protein_range_table)
  from d have "dmin = 128" "dmax = 160" "t = 144"
    unfolding wkg lh daily_grams_80 by simp_all
  with c lh show ?thesis
    unfolding example_request_def by simp
qed

subsection \<open>The grams of a meal plan\<close>

text \<open>
  Claim C6. For every valid request, the response holds four meal plans, and in each of them
  \<open>protein_g\<close>, \<open>carbs_g\<close> and \<open>fats_g\<close> are \<open>round(value / 5) \<times> 5\<close> for the raw value in
  grams (the target, and the carbs and fats that the plan's own percentages give), hence
  each a multiple of 5; whatever \<^verbatim>\<open>_round5\<close> returns is of that form.
\<close>

theorem plan_grams_multiples_of_5:
  assumes "valid_request req"
  shows "(\<exists>resp. calculate_protein req = Inr resp \<and> length (suggestions resp) = 4 \<and>
            (\<forall>plan \<in> set (suggestions resp). \<exists>p c f.
               split_percent (macros plan) = [(''protein'', p), (''carbs'', c), (''fats'', f)] \<and>
               protein_g (macros plan) =
                 py_round (fl (of_int (daily_grams_target resp) / 5)) * 5 \<and>
               carbs_g (macros plan) =
                 py_round (fl (raw_carbs_of p c (daily_grams_target resp) / 5)) * 5 \<and>
               fats_g (macros plan) =
                 py_round (fl (raw_fats_of p f (daily_grams_target resp) / 5)) * 5 \<and>
               5 dvd protein_g (macros plan) \<and> 5 dvd carbs_g (macros plan) \<and>
               5 dvd fats_g (macros plan))) \<and>
         (\<forall>x r. round5 x = Inr r \<longrightarrow> r = py_round (fl (x / 5)) * 5 \<and> 5 dvd r)"
proof (intro conjI allI impI)
  from assms obtain wkg wkg2 lo hi dmin dmax t plans where
    w: "weight_in_kg req = Inr wkg" and w0: "0 \<le> wkg" and w1: "wkg \<le> 1024"
    and r: "protein_range (activity req) (goal req) = Inr (lo, hi)"
    and d: "daily_grams lo hi wkg = Inr (dmin, dmax, t)" and t0: "0 \<le> t" and t1: "t \<le> 4096"
    and s: "suggestions_for (p_bump_of (goal req)) t archetypes = Inr plans"
    and n: "length plans = 4"
    and p: "\<forall>plan \<in> set plans. \<exists>p c f.
           split_percent (macros plan) = [(''protein'', p), (''carbs'', c), (''fats'', f)] \<and>
           protein_g (macros plan) = py_round (fl (of_int t / 5)) * 5 \<and>
           carbs_g (macros plan) = py_round (fl (raw_carbs_of p c t / 5)) * 5 \<and>
           fats_g (macros plan) = py_round (fl (raw_fats_of p f t / 5)) * 5 \<and>
           calories (macros plan) = py_round (total_kcal_of p t)"
    and c: "calculate_protein req =
           Inr \<lparr>weight_kg = wkg2, grams_per_kg_range = (lo, hi),
                daily_grams_min = dmin, daily_grams_max = dmax, daily_grams_target = t,
                rationale = rationale_text lo hi, suggestions = plans\<rparr>"
    by (rule calculate_protein_valid)
  have "\<forall>plan \<in> set plans. \<exists>p c f.
          split_percent (macros plan) = [(''protein'', p), (''carbs'', c), (''fats'', f)] \<and>
          protein_g (macros plan) = py_round (fl (of_int t / 5)) * 5 \<and>
          carbs_g (macros plan) = py_round (fl (raw_carbs_of p c t / 5)) * 5 \<and>
          fats_g (macros plan) = py_round (fl (raw_fats_of p f t / 5)) * 5 \<and>
          5 dvd protein_g (macros plan) \<and> 5 dvd carbs_g (macros plan) \<and>
          5 dvd fats_g (macros plan)"
  proof
    fix plan
    assume "plan \<in> set plans"
    with p obtain pp cc ff where
      e: "split_percent (macros plan) = [(''protein'', pp), (''carbs'', cc), (''fats'', ff)]"
        "protein_g (macros plan) = py_round (fl (of_int t / 5)) * 5"
        "carbs_g (macros plan) = py_round (fl (raw_carbs_of pp cc t / 5)) * 5"
        "fats_g (macros plan) = py_round (fl (raw_fats_of pp ff t / 5)) * 5"
      by blast
    have "5 dvd protein_g (macros plan)" "5 dvd carbs_g (macros plan)"
      "5 dvd fats_g (macros plan)"
      unfolding e by simp_all
    with e show "\<exists>p c f.
          split_percent (macros plan) = [(''protein'', p), (''carbs'', c), (''fats'', f)] \<and>
          protein_g (macros plan) = py_round (fl (of_int t / 5)) * 5 \<and>
          carbs_g (macros plan) = py_round (fl (raw_carbs_of p c t / 5)) * 5 \<and>
          fats_g (macros plan) = py_round (fl (raw_fats_of p f t / 5)) * 5 \<and>
          5 dvd protein_g (macros plan) \<and> 5 dvd carbs_g (macros plan) \<and>
          5 dvd fats_g (macros plan)"
      by blast
  qed
  with n show "\<exists>resp. calculate_protein req = Inr resp \<and> length (suggestions resp) = 4 \<and>
            (\<forall>plan \<in> set (suggestions resp). \<exists>p c f.
               split_percent (macros plan) = [(''protein'', p), (''carbs'', c), (''fats'', f)] \<and>
               protein_g (macros plan) =
                 py_round (fl (of_int (daily_grams_target resp) / 5)) * 5 \<and>
               carbs_g (macros plan) =
                 py_round (fl (raw_carbs_of p c (daily_grams_target resp) / 5)) * 5 \<and>
               fats_g (macros plan) =
                 py_round (fl (raw_fats_of p f (daily_grams_target resp) / 5)) * 5 \<and>
               5 dvd protein_g (macros plan) \<and> 5 dvd carbs_g (macros plan) \<and>
               5 dvd fats_g (macros plan))"
    unfolding c by simp
next
  fix x r
  assume "round5 x = Inr r"
  then show "r = py_round (fl (x / 5)) * 5"
    by (rule round5_Inr_D)
  then show "5 dvd r"
    by simp
qed

theorem plan_grams_multiples_of_5_witness:
  "valid_request example_request \<and>
   (\<exists>resp. calculate_protein example_request = Inr resp \<and> length (suggestions resp) = 4 \<and>
      5 dvd protein_g (macros (hd (suggestions resp))) \<and>
      5 dvd carbs_g (macros (hd (suggestions resp))) \<and>
      5 dvd fats_g (macros (hd (suggestions resp))))"
proof -
  have v: "valid_request example_request"
    by (simp add: valid_request_def example_request_def)
  from plan_grams_multiples_of_5 [OF v] obtain resp where
    c: "calculate_protein example_request = Inr resp" and n: "length (suggestions resp) = 4"
    and p: "\<forall>plan \<in> set (suggestions resp). \<exists>p c f.
               split_percent (macros plan) = [(''protein'', p), (''carbs'', c), (''fats'', f)] \<and>
               protein_g (macros plan) =
                 py_round (fl (of_int (daily_grams_target resp) / 5)) * 5 \<and>
               carbs_g (macros plan) =
                 py_round (fl (raw_carbs_of p c (daily_grams_target resp) / 5)) * 5 \<and>
               fats_g (macros plan) =
                 py_round (fl (raw_fats_of p f (daily_grams_target resp) / 5)) * 5 \<and>
               5 dvd protein_g (macros plan) \<and> 5 dvd carbs_g (macros plan) \<and>
               5 dvd fats_g (macros plan)"
    by (elim exE conjE) (rule that)
  from n have "hd (suggestions resp) \<in> set (suggestions resp)"
    by (cases "suggestions resp") simp_all
  with p v c n show ?thesis
    by blast
qed

subsection \<open>Totality after validation\<close>

text \<open>
  Claim C7. A request that \<^verbatim>\<open>ProteinRequest\<close> accepted has a weight in \<open>(0, 1000]\<close>, and
  \<^verbatim>\<open>calculate_protein\<close> returns a response for it: no exception is raised. In particular
  every adjusted protein percentage is positive, and so is the float \<^verbatim>\<open>p_pct / 100.0\<close> by
  which \<^verbatim>\<open>_make_plan\<close> divides.
\<close>

theorem computation_total_after_validation:
  assumes "ProteinRequest_init raw = Inr req"
  shows "0 < weight req \<and> weight req \<le> 1000 \<and>
         (\<exists>resp. calculate_protein req = Inr resp) \<and>
         (\<forall>pcf \<in> set base_splits.
            case adjust_split (p_bump_of (goal req)) pcf of (p_pct, c_pct, f_pct) \<Rightarrow>
              0 < p_pct \<and>
              (\<exists>p_f p_frac. float_of_int p_pct = Inr p_f \<and> fdiv p_f 100 = Inr p_frac \<and>
                 0 < p_frac))"
proof (intro conjI ballI)
  from assms have v: "valid_request req"
    by (rule ProteinRequest_init_Inr_D)
  then show "0 < weight req" and "weight req \<le> 1000"
    by (simp_all add: valid_request_def)
  from v obtain wkg wkg2 lo hi dmin dmax t plans where
    w: "weight_in_kg req = Inr wkg" and w0: "0 \<le> wkg" and w1: "wkg \<le> 1024"
    and r: "protein_range (activity req) (goal req) = Inr (lo, hi)"
    and d: "daily_grams lo hi wkg = Inr (dmin, dmax, t)" and t0: "0 \<le> t" and t1: "t \<le> 4096"
    and s: "suggestions_for (p_bump_of (goal req)) t archetypes = Inr plans"
    and n: "length plans = 4"
    and p: "\<forall>plan \<in> set plans. \<exists>p c f.
           split_percent (macros plan) = [(''protein'', p), (''carbs'', c), (''fats'', f)] \<and>
           protein_g (macros plan) = py_round (fl (of_int t / 5)) * 5 \<and>
           carbs_g (macros plan) = py_round (fl (raw_carbs_of p c t / 5)) * 5 \<and>
           fats_g (macros plan) = py_round (fl (raw_fats_of p f t / 5)) * 5 \<and>
           calories (macros plan) = py_round (total_kcal_of p t)"
    and c: "calculate_protein req =
           Inr \<lparr>weight_kg = wkg2, grams_per_kg_range = (lo, hi),
                daily_grams_min = dmin, daily_grams_max = dmax, daily_grams_target = t,
                rationale = rationale_text lo hi, suggestions = plans\<rparr>"
    by (rule calculate_protein_valid)
  from c show "\<exists>resp. calculate_protein req = Inr resp"
    by simp
next
  fix pcf
  assume "pcf \<in> set base_splits"
  then obtain nm tag where "(nm, tag, pcf) \<in> set archetypes"
    by (auto simp: base_splits_def)
  with archetypes_within_bounds [of "goal req"]
  have b: "case adjust_split (p_bump_of (goal req)) pcf of (p, c, f) \<Rightarrow>
             13 \<le> p \<and> p \<le> 100 \<and> 0 \<le> c \<and> c \<le> 100 \<and> 0 \<le> f \<and> f \<le> 100"
    by fastforce
  obtain p c f where adj: "adjust_split (p_bump_of (goal req)) pcf = (p, c, f)"
    by (cases "adjust_split (p_bump_of (goal req)) pcf")
  from b adj have p: "13 \<le> p" "p \<le> 100"
    by simp_all
  then have p0: "0 \<le> p"
    by simp
  have fp: "float_of_int p = Inr (of_int p)"
    using p by (intro float_of_int_ok) simp
  note pf = percent_fraction(1) [OF p0 p(2)]
  from protein_fraction_pos [OF p(1)] have pos: "0 < fl (of_int p / 100)"
    by simp
  from p(1) fp pf pos
  show "case adjust_split (p_bump_of (goal req)) pcf of (p_pct, c_pct, f_pct) \<Rightarrow>
              0 < p_pct \<and>
              (\<exists>p_f p_frac. float_of_int p_pct = Inr p_f \<and> fdiv p_f 100 = Inr p_frac \<and>
                 0 < p_frac)"
    by (simp add: adj)
qed

theorem computation_total_after_validation_witness:
  "ProteinRequest_init
     \<lparr>raw_weight = 80, raw_unit = Some ''kg'', raw_activity = Some ''moderate'',
      raw_goal = Some ''maintenance'', raw_age = None, raw_sex = None\<rparr> = Inr example_request \<and>
   (\<exists>resp. calculate_protein example_request = Inr resp)"
proof -
  have i: "ProteinRequest_init
     \<lparr>raw_weight = 80, raw_unit = Some ''kg'', raw_activity = Some ''moderate'',
      raw_goal = Some ''maintenance'', raw_age = None, raw_sex = None\<rparr> = Inr example_request"
    by (simp add: ProteinRequest_init_def field_errors_def check_weight_def validate_weight_def
        check_age_def parse_unit_def parse_activity_def parse_goal_def example_request_def)
  from computation_total_after_validation [OF i]
  have "\<exists>resp. calculate_protein example_request = Inr resp"
    by (elim conjE)
  with i show ?thesis
    by (rule conjI)
qed

subsection \<open>Validation of the weight\<close>

text \<open>
  Claim C8. When unit, activity, goal, sex and age are valid, the construction of the request
  fails with a \<^verbatim>\<open>ValidationError\<close> if and only if the weight is \<open>\<le> 0\<close> or \<open>> 1000\<close>, and the
  error then names the field \<^verbatim>\<open>weight\<close> alone. The test reads the weight as it was given:
  its outcome is the same for every unit, and a request that is built holds the weight it
  was given, unchanged.
\<close>

theorem validation_fails_iff_weight_out_of_range:
  assumes "raw_unit raw \<in> {None, Some ''kg'', Some ''lb''}"
    and "raw_activity raw \<in> {None, Some ''low'', Some ''moderate'', Some ''high''}"
    and "raw_goal raw \<in> {None, Some ''fat_loss'', Some ''maintenance'', Some ''muscle_gain''}"
    and "raw_sex raw \<in> {None, Some ''male'', Some ''female'', Some ''other''}"
    and "raw_age raw = None \<or> (\<exists>n. raw_age raw = Some n \<and> 10 \<le> n \<and> n \<le> 100)"
  shows "((\<exists>e. ProteinRequest_init raw = Inl e) \<longleftrightarrow>
            raw_weight raw \<le> 0 \<or> 1000 < raw_weight raw) \<and>
         (raw_weight raw \<le> 0 \<or> 1000 < raw_weight raw \<longrightarrow>
            ProteinRequest_init raw = Inl (ValidationError [''weight''])) \<and>
         (\<forall>u \<in> {None, Some ''kg'', Some ''lb''}.
            (\<exists>e. ProteinRequest_init (raw\<lparr>raw_unit := u\<rparr>) = Inl e) \<longleftrightarrow>
            (\<exists>e. ProteinRequest_init raw = Inl e)) \<and>
         (\<forall>req. ProteinRequest_init raw = Inr req \<longrightarrow> weight req = raw_weight raw)"
proof -
  note fe = field_errors_weight_only [OF assms]
  have iff: "(\<exists>e. ProteinRequest_init raw = Inl e) \<longleftrightarrow>
               raw_weight raw \<le> 0 \<or> 1000 < raw_weight raw"
    by (simp add: ProteinRequest_init_def fe check_weight_eq_None_iff)
  have err: "raw_weight raw \<le> 0 \<or> 1000 < raw_weight raw \<longrightarrow>
               ProteinRequest_init raw = Inl (ValidationError [''weight''])"
    by (simp add: ProteinRequest_init_def fe check_weight_eq_None_iff)
  have unit: "(\<exists>e. ProteinRequest_init (raw\<lparr>raw_unit := u\<rparr>) = Inl e) \<longleftrightarrow>
               (\<exists>e. ProteinRequest_init raw = Inl e)"
    if "u \<in> {None, Some ''kg'', Some ''lb''}" for u
  proof -
    have "field_errors (raw\<lparr>raw_unit := u\<rparr>) =
            (if check_weight (raw_weight (raw\<lparr>raw_unit := u\<rparr>)) = None then [''weight'']
             else [])"
      using that assms(2-5) by (intro field_errors_weight_only) simp_all
    then show ?thesis
      by (simp add: ProteinRequest_init_def fe)
  qed
  have same: "\<forall>req. ProteinRequest_init raw = Inr req \<longrightarrow> weight req = raw_weight raw"
    by (auto dest: ProteinRequest_init_Inr_D(2))
  from iff err unit same show ?thesis
    by blast
qed

theorem validation_fails_iff_weight_out_of_range_witness:
  "ProteinRequest_init
     \<lparr>raw_weight = 1500, raw_unit = Some ''lb'', raw_activity = None, raw_goal = None,
      raw_age = None, raw_sex = None\<rparr> = Inl (ValidationError [''weight'']) \<and>
   ProteinRequest_init
     \<lparr>raw_weight = 1500, raw_unit = Some ''kg'', raw_activity = None, raw_goal = None,
      raw_age = None, raw_sex = None\<rparr> = Inl (ValidationError [''weight''])"
proof -
  have lb: "ProteinRequest_init
     \<lparr>raw_weight = 1500, raw_unit = Some ''lb'', raw_activity = None, raw_goal = None,
      raw_age = None, raw_sex = None\<rparr> = Inl (ValidationError [''weight''])"
    using validation_fails_iff_weight_out_of_range
      [of "\<lparr>raw_weight = 1500, raw_unit = Some ''lb'', raw_activity = None, raw_goal = None,
            raw_age = None, raw_sex = None\<rparr>"]
    by simp
  have kg: "ProteinRequest_init
     \<lparr>raw_weight = 1500, raw_unit = Some ''kg'', raw_activity = None, raw_goal = None,
      raw_age = None, raw_sex = None\<rparr> = Inl (ValidationError [''weight''])"
    using validation_fails_iff_weight_out_of_range
      [of "\<lparr>raw_weight = 1500, raw_unit = Some ''kg'', raw_activity = None, raw_goal = None,
            raw_age = None, raw_sex = None\<rparr>"]
    by simp
  from lb kg show ?thesis
    by (rule conjI)
qed

subsection \<open>The protein grams of the plans\<close>

text \<open>
  Claim C10. For every valid request the four meal plans report the same \<open>protein_g\<close>: the
  daily target rounded to a multiple of 5 by \<^verbatim>\<open>_round5\<close>, that is
  \<open>round(target / 5) \<times> 5\<close>. It differs from \<open>daily_grams_target\<close> by at most 2 grams.
\<close>

theorem plans_share_rounded_target:
  assumes "valid_request req"
  shows "\<exists>resp. calculate_protein req = Inr resp \<and> length (suggestions resp) = 4 \<and>
           (\<forall>plan \<in> set (suggestions resp).
              round5 (of_int (daily_grams_target resp)) = Inr (protein_g (macros plan)) \<and>
              protein_g (macros plan) =
                py_round (fl (of_int (daily_grams_target resp) / 5)) * 5 \<and>
              \<bar>protein_g (macros plan) - daily_grams_target resp\<bar> \<le> 2)"
proof -
  from assms obtain wkg wkg2 lo hi dmin dmax t plans where
    w: "weight_in_kg req = Inr wkg" and w0: "0 \<le> wkg" and w1: "wkg \<le> 1024"
    and r: "protein_range (activity req) (goal req) = Inr (lo, hi)"
    and d: "daily_grams lo hi wkg = Inr (dmin, dmax, t)" and t0: "0 \<le> t" and t1: "t \<le> 4096"
    and s: "suggestions_for (p_bump_of (goal req)) t archetypes = Inr plans"
    and n: "length plans = 4"
    and p: "\<forall>plan \<in> set plans. \<exists>p c f.
           split_percent (macros plan) = [(''protein'', p), (''carbs'', c), (''fats'', f)] \<and>
           protein_g (macros plan) = py_round (fl (of_int t / 5)) * 5 \<and>
           carbs_g (macros plan) = py_round (fl (raw_carbs_of p c t / 5)) * 5 \<and>
           fats_g (macros plan) = py_round (fl (raw_fats_of p f t / 5)) * 5 \<and>
           calories (macros plan) = py_round (total_kcal_of p t)"
    and c: "calculate_protein req =
           Inr \<lparr>weight_kg = wkg2, grams_per_kg_range = (lo, hi),
                daily_grams_min = dmin, daily_grams_max = dmax, daily_grams_target = t,
                rationale = rationale_text lo hi, suggestions = plans\<rparr>"
    by (rule calculate_protein_valid)
  have tr: "(0::rat) \<le> of_int t" "(of_int t :: rat) \<le> 2 powi 17"
    using t0 t1 by simp_all
  note r5 = round5_ok [OF tr]
  note er = round5_int_error [OF t0 t1]
  from p have pg: "\<forall>plan \<in> set plans.
      protein_g (macros plan) = py_round (fl (of_int t / 5)) * 5"
    by blast
  from pg r5 er n show ?thesis
    unfolding c by simp
qed

theorem plans_share_rounded_target_witness:
  "valid_request request_79kg \<and>
   (\<exists>resp. calculate_protein request_79kg = Inr resp \<and> daily_grams_target resp = 142 \<and>
      protein_g (macros (hd (suggestions resp))) = 140)"
proof -
  have v: "valid_request request_79kg"
    by (simp add: valid_request_def request_79kg_def)
  from plans_share_rounded_target [OF v] obtain resp where
    c: "calculate_protein request_79kg = Inr resp" and n: "length (suggestions resp) = 4"
    and p: "\<forall>plan \<in> set (suggestions resp).
              round5 (of_int (daily_grams_target resp)) = Inr (protein_g (macros plan)) \<and>
              protein_g (macros plan) =
                py_round (fl (of_int (daily_grams_target resp) / 5)) * 5 \<and>
              \<bar>protein_g (macros plan) - daily_grams_target resp\<bar> \<le> 2"
    by (elim exE conjE) (rule that)
  from v obtain wkg wkg2 lo hi dmin dmax t plans where
    w: "weight_in_kg request_79kg = Inr wkg" and w0: "0 \<le> wkg" and w1: "wkg \<le> 1024"
    and r: "protein_range (activity request_79kg) (goal request_79kg) = Inr (lo, hi)"
    and d: "daily_grams lo hi wkg = Inr (dmin, dmax, t)" and t0: "0 \<le> t" and t1: "t \<le> 4096"
    and s: "suggestions_for (p_bump_of (goal request_79kg)) t archetypes = Inr plans"
    and n': "length plans = 4"
    and p': "\<forall>plan \<in> set plans. \<exists>p c f.
           split_percent (macros plan) = [(''protein'', p), (''carbs'', c), (''fats'', f)] \<and>
           protein_g (macros plan) = py_round (fl (of_int t / 5)) * 5 \<and>
           carbs_g (macros plan) = py_round (fl (raw_carbs_of p c t / 5)) * 5 \<and>
           fats_g (macros plan) = py_round (fl (raw_fats_of p f t / 5)) * 5 \<and>
           calories (macros plan) = py_round (total_kcal_of p t)"
    and c': "calculate_protein request_79kg =
           Inr \<lparr>weight_kg = wkg2, grams_per_kg_range = (lo, hi),
                daily_grams_min = dmin, daily_grams_max = dmax, daily_grams_target = t,
                rationale = rationale_text lo hi, suggestions = plans\<rparr>"
    by (rule calculate_protein_valid)
  from w have wkg: "wkg = 79"
    by (simp add: weight_in_kg_def request_79kg_def)
  from r have lh: "lo = float_lit 16 1" "hi = 2"
    by (simp_all add: request_79kg_def protein_range_table)
  from d have t: "t = 142"
    unfolding wkg lh daily_grams_79 by simp
  from c' [unfolded c] have tg: "daily_grams_target resp = 142"
    using t by auto
  from n have "hd (suggestions resp) \<in> set (suggestions resp)"
    by (cases "suggestions resp") simp_all
  with p have "protein_g (macros (hd (suggestions resp))) =
      py_round (fl (of_int (daily_grams_target resp) / 5)) * 5"
    by blast
  then have "protein_g (macros (hd (suggestions resp))) = 140"
    unfolding tg by (simp only: round5_142)
  with v c tg show ?thesis
    by blast
qed

end
